theory Spec2Isabelle
  imports Main
begin

section \<open>Python values, text conversion and dictionaries\<close>

text \<open>
  The record store of \<^verbatim>\<open>database.py\<close> (class \<^verbatim>\<open>Database\<close>) moves untyped Python
  dictionaries between its callers, a directory of CSV files and a remote client.
  The values that can occur are modelled by \<open>pyval\<close>: \<open>None\<close>, a string, an
  (unbounded) integer, and a list of strings (what \<^verbatim>\<open>csv.DictReader\<close> stores under the
  key \<open>None\<close> for the surplus cells of an over-long row). Strings are \<open>char list\<close>; the
  text conversions below (\<^verbatim>\<open>str\<close>, \<^verbatim>\<open>int\<close>, \<^verbatim>\<open>repr\<close>) are those of Python on ASCII text.
  Python's limit on the number of digits of an integer conversion and the float and
  bool types are outside the model.
\<close>

datatype pyval = PNone | PStr string | PInt int | PList "string list"

datatype pyerror =
    ValueError | TypeError | AttributeError | UnicodeDecodeError
  | BackendError | OSError | CredentialsError

text \<open>A dictionary keeps its keys in insertion order; keys are unique.\<close>

type_synonym pydict = "(pyval \<times> pyval) list"

definition keys :: "pydict \<Rightarrow> pyval list" where
  "keys d = map fst d"

text \<open>\<^verbatim>\<open>d.get(k)\<close> and \<^verbatim>\<open>d.get(k, default)\<close>.\<close>

definition get_default :: "pydict \<Rightarrow> pyval \<Rightarrow> pyval \<Rightarrow> pyval" where
  "get_default d k dflt = (case map_of d k of None \<Rightarrow> dflt | Some v \<Rightarrow> v)"

definition get :: "pydict \<Rightarrow> pyval \<Rightarrow> pyval" where
  "get d k = get_default d k PNone"

text \<open>\<^verbatim>\<open>d[k] = v\<close>: an existing key keeps its position, a new key goes last.\<close>

fun dict_set :: "pydict \<Rightarrow> pyval \<Rightarrow> pyval \<Rightarrow> pydict" where
  "dict_set [] k v = [(k, v)]"
| "dict_set ((k', v') # d) k v =
     (if k' = k then (k', v) # d else (k', v') # dict_set d k v)"

text \<open>\<^verbatim>\<open>d.update(e)\<close> and \<^verbatim>\<open>dict(pairs)\<close>.\<close>

definition dict_update :: "pydict \<Rightarrow> pydict \<Rightarrow> pydict" where
  "dict_update d e = fold (\<lambda>(k, v) acc. dict_set acc k v) e d"

definition dict_of :: "(pyval \<times> pyval) list \<Rightarrow> pydict" where
  "dict_of kvs = dict_update [] kvs"

text \<open>\<^verbatim>\<open>str(n)\<close> for an integer.\<close>

fun str_nat :: "nat \<Rightarrow> string" where
  "str_nat n =
     (if n < 10 then [''0123456789'' ! n]
      else str_nat (n div 10) @ [''0123456789'' ! (n mod 10)])"

declare str_nat.simps [simp del]

definition str_int :: "int \<Rightarrow> string" where
  "str_int i = (if i < 0 then CHR ''-'' # str_nat (nat (- i)) else str_nat (nat i))"

text \<open>\<^verbatim>\<open>repr\<close> of a string and \<^verbatim>\<open>str\<close> of a list of strings.\<close>

definition hex2 :: "nat \<Rightarrow> string" where
  "hex2 n = [''0123456789abcdef'' ! (n div 16 mod 16), ''0123456789abcdef'' ! (n mod 16)]"

definition repr_char :: "char \<Rightarrow> char \<Rightarrow> string" where
  "repr_char q c =
     (if c = q \<or> c = CHR 0x5C then [CHR 0x5C, c]
      else if c = CHR 0x09 then [CHR 0x5C, CHR ''t'']
      else if c = CHR 0x0A then [CHR 0x5C, CHR ''n'']
      else if c = CHR 0x0D then [CHR 0x5C, CHR ''r'']
      else if (of_char c :: nat) < 32 \<or> (of_char c :: nat) = 127
        then [CHR 0x5C, CHR ''x''] @ hex2 (of_char c)
      else [c])"

definition repr_str :: "string \<Rightarrow> string" where
  "repr_str s =
     (let q = (if CHR 0x27 \<in> set s \<and> CHR 0x22 \<notin> set s then CHR 0x22 else CHR 0x27)
      in [q] @ concat (map (repr_char q) s) @ [q])"

fun join :: "string \<Rightarrow> string list \<Rightarrow> string" where
  "join sep [] = []"
| "join sep [x] = x"
| "join sep (x # y # ys) = x @ sep @ join sep (y # ys)"

definition str_list :: "string list \<Rightarrow> string" where
  "str_list xs = ''['' @ join '', '' (map repr_str xs) @ '']''"

definition py_str :: "pyval \<Rightarrow> string" where
  "py_str v =
     (case v of PNone \<Rightarrow> ''None'' | PStr s \<Rightarrow> s | PInt i \<Rightarrow> str_int i
      | PList xs \<Rightarrow> str_list xs)"

text \<open>\<^verbatim>\<open>int(x)\<close>: an integer is itself; a string is stripped of white space and read
  as an optional sign and decimal digits, single underscores allowed between digits;
  \<open>None\<close> and a list raise \<^verbatim>\<open>TypeError\<close>.\<close>

definition is_space :: "char \<Rightarrow> bool" where
  "is_space c = (c \<in> set [CHR 0x20, CHR 0x09, CHR 0x0A, CHR 0x0B, CHR 0x0C, CHR 0x0D])"

definition strip :: "string \<Rightarrow> string" where
  "strip s = rev (dropWhile is_space (rev (dropWhile is_space s)))"

definition digit_value :: "char \<Rightarrow> int option" where
  "digit_value c =
     map_of [(CHR ''0'', 0), (CHR ''1'', 1), (CHR ''2'', 2), (CHR ''3'', 3), (CHR ''4'', 4),
             (CHR ''5'', 5), (CHR ''6'', 6), (CHR ''7'', 7), (CHR ''8'', 8), (CHR ''9'', 9)] c"

fun parse_digits :: "int \<Rightarrow> bool \<Rightarrow> string \<Rightarrow> int option" where
  "parse_digits acc after_digit [] = (if after_digit then Some acc else None)"
| "parse_digits acc after_digit (c # cs) =
     (case digit_value c of
        Some d \<Rightarrow> parse_digits (acc * 10 + d) True cs
      | None \<Rightarrow>
          (if c = CHR ''_'' \<and> after_digit then
             (case cs of
                [] \<Rightarrow> None
              | c' # _ \<Rightarrow> (if digit_value c' = None then None else parse_digits acc False cs))
           else None))"

definition int_of_str :: "string \<Rightarrow> int option" where
  "int_of_str s =
     (case strip s of
        [] \<Rightarrow> None
      | c # cs \<Rightarrow>
          (if c = CHR ''-'' then map_option uminus (parse_digits 0 False cs)
           else if c = CHR ''+'' then parse_digits 0 False cs
           else parse_digits 0 False (c # cs)))"

definition py_int :: "pyval \<Rightarrow> pyerror + int" where
  "py_int v =
     (case v of
        PInt i \<Rightarrow> Inr i
      | PStr s \<Rightarrow> (case int_of_str s of None \<Rightarrow> Inl ValueError | Some i \<Rightarrow> Inr i)
      | PNone \<Rightarrow> Inl TypeError
      | PList xs \<Rightarrow> Inl TypeError)"

text \<open>\<^verbatim>\<open>max(xs, default=d)\<close>.\<close>

definition max_default :: "int list \<Rightarrow> int \<Rightarrow> int" where
  "max_default xs d = (case xs of [] \<Rightarrow> d | x # rest \<Rightarrow> fold max rest x)"

section \<open>The CSV library at the level of rows\<close>

text \<open>
  A file of the backup directory is seen as the rows of cells that \<^verbatim>\<open>csv.reader\<close>
  yields from it and \<^verbatim>\<open>csv.writer\<close> puts into it (quoting is the library's concern, and
  it reads back what it wrote), or as \<open>Garbled\<close>: bytes that cannot be decoded, on which
  reading raises.
\<close>

datatype csvfile = Rows "string list list" | Garbled

text \<open>What \<^verbatim>\<open>csv.writer\<close> writes for one value: nothing for \<open>None\<close>, \<^verbatim>\<open>str\<close> of it
  otherwise.\<close>

definition csv_cell :: "pyval \<Rightarrow> string" where
  "csv_cell v = (case v of PNone \<Rightarrow> [] | _ \<Rightarrow> py_str v)"

text \<open>\<^verbatim>\<open>csv.DictReader\<close>: the first row holds the field names; blank rows are passed
  over; a row is zipped with the field names, surplus cells go under the key \<open>None\<close>
  as a list, and missing cells are \<open>None\<close>.\<close>

definition row_to_dict :: "string list \<Rightarrow> string list \<Rightarrow> pydict" where
  "row_to_dict fieldnames row =
     (let d = dict_of (zip (map PStr fieldnames) (map PStr row));
          lf = length fieldnames;
          lr = length row
      in if lf < lr then dict_set d PNone (PList (drop lf row))
         else if lf > lr then fold (\<lambda>key acc. dict_set acc (PStr key) PNone) (drop lr fieldnames) d
         else d)"

definition dict_reader :: "string list list \<Rightarrow> pydict list" where
  "dict_reader rows =
     (case rows of
        [] \<Rightarrow> []
      | fieldnames # rest \<Rightarrow> map (row_to_dict fieldnames) (filter (\<lambda>row. row \<noteq> []) rest))"

text \<open>\<^verbatim>\<open>csv.DictWriter\<close> with \<^verbatim>\<open>extrasaction='raise'\<close> and \<^verbatim>\<open>restval=''\<close>: a dictionary
  with a key outside the field names raises \<^verbatim>\<open>ValueError\<close>; \<^verbatim>\<open>writerows\<close> writes row by
  row, so the rows before the offending one are already in the file.\<close>

definition dict_to_list :: "pyval list \<Rightarrow> pydict \<Rightarrow> pyerror + string list" where
  "dict_to_list fieldnames rowdict =
     (if list_ex (\<lambda>k. k \<notin> set fieldnames) (keys rowdict) then Inl ValueError
      else Inr (map (\<lambda>key. csv_cell (get_default rowdict key (PStr []))) fieldnames))"

definition writeheader :: "pyval list \<Rightarrow> string list" where
  "writeheader fieldnames = map csv_cell fieldnames"

fun writerows :: "pyval list \<Rightarrow> pydict list \<Rightarrow> string list list \<times> pyerror option" where
  "writerows fieldnames [] = ([], None)"
| "writerows fieldnames (rowdict # rest) =
     (case dict_to_list fieldnames rowdict of
        Inl e \<Rightarrow> ([], Some e)
      | Inr row \<Rightarrow> (case writerows fieldnames rest of (rows, err) \<Rightarrow> (row # rows, err)))"

section \<open>The store\<close>

text \<open>
  The remote backend is opaque: a \<open>client\<close> gives, for each query the store builds,
  what executing it returns or raises.
\<close>

record client =
  exec_probe :: "string \<Rightarrow> pyerror + pydict list"
  exec_select :: "string \<Rightarrow> (pyval \<times> pyval) list \<Rightarrow> pyerror + pydict list"
  exec_insert :: "string \<Rightarrow> pydict \<Rightarrow> pyerror option"
  exec_update :: "string \<Rightarrow> pydict \<Rightarrow> pyval \<Rightarrow> pyerror option"
  exec_delete :: "string \<Rightarrow> pyval \<Rightarrow> pyerror option"

text \<open>The fields of a \<^verbatim>\<open>Database\<close> object, and with them the files of its backup
  directory, by path.\<close>

record store =
  supabase :: "client option"
  connected :: bool
  csv_mode :: bool
  csv_dir :: string
  disk :: "string \<Rightarrow> csvfile option"

text \<open>What construction reads from its surroundings: the two configured credentials,
  the client factory, whether the backup directory exists, what \<^verbatim>\<open>os.makedirs\<close> does
  when called, and the files present.\<close>

record environment =
  supabase_url :: "string option"
  supabase_key :: "string option"
  create_client :: "string \<Rightarrow> string \<Rightarrow> pyerror + client"
  dir_exists :: bool
  makedirs :: "pyerror option"
  initial_disk :: "string \<Rightarrow> csvfile option"

definition TABLA_CLIENTES :: string where
  "TABLA_CLIENTES = ''clientes''"

text \<open>\<^verbatim>\<open>_connect\<close>: the body of its \<^verbatim>\<open>try\<close>, then the handler.\<close>

definition connect_try :: "environment \<Rightarrow> store \<Rightarrow> store \<times> pyerror option" where
  "connect_try env self =
     (case (supabase_url env, supabase_key env) of
        (Some url, Some key) \<Rightarrow>
          (if url \<noteq> [] \<and> key \<noteq> [] then
             (case create_client env url key of
                Inl e \<Rightarrow> (self, Some e)
              | Inr c \<Rightarrow>
                  (case exec_probe c TABLA_CLIENTES of
                     Inl e \<Rightarrow> (self\<lparr>supabase := Some c\<rparr>, Some e)
                   | Inr _ \<Rightarrow>
                       (self\<lparr>supabase := Some c, connected := True, csv_mode := False\<rparr>, None)))
           else (self, Some CredentialsError))
      | _ \<Rightarrow> (self, Some CredentialsError))"

definition connect :: "environment \<Rightarrow> store \<Rightarrow> store" where
  "connect env self =
     (case connect_try env self of
        (self', None) \<Rightarrow> self'
      | (self', Some e) \<Rightarrow> self'\<lparr>connected := False, csv_mode := True\<rparr>)"

text \<open>\<^verbatim>\<open>__init__\<close>: \<^verbatim>\<open>os.makedirs\<close> is called outside any \<^verbatim>\<open>try\<close>.\<close>

definition init :: "environment \<Rightarrow> pyerror + store" where
  "init env =
     (let self = \<lparr>supabase = None, connected = False, csv_mode = False,
                  csv_dir = ''data_backup'', disk = initial_disk env\<rparr>
      in if \<not> dir_exists env then
           (case makedirs env of
              Some e \<Rightarrow> Inl e
            | None \<Rightarrow> Inr (connect env self))
         else Inr (connect env self))"

text \<open>\<^verbatim>\<open>_get_csv_path\<close>: \<^verbatim>\<open>os.path.join\<close> on a POSIX system.\<close>

definition path_join :: "string \<Rightarrow> string \<Rightarrow> string" where
  "path_join a b =
     (case b of
        [] \<Rightarrow> (if a = [] \<or> last a = CHR ''/'' then a else a @ ''/'')
      | c # _ \<Rightarrow>
          (if c = CHR ''/'' then b
           else if a = [] \<or> last a = CHR ''/'' then a @ b
           else a @ ''/'' @ b))"

definition get_csv_path :: "store \<Rightarrow> string \<Rightarrow> string" where
  "get_csv_path self tabla = path_join (csv_dir self) (tabla @ ''.csv'')"

text \<open>\<^verbatim>\<open>_read_csv\<close>.\<close>

definition read_csv :: "store \<Rightarrow> string \<Rightarrow> pyerror + pydict list" where
  "read_csv self tabla =
     (case disk self (get_csv_path self tabla) of
        None \<Rightarrow> Inr []
      | Some Garbled \<Rightarrow> Inl UnicodeDecodeError
      | Some (Rows rows) \<Rightarrow> Inr (dict_reader rows))"

text \<open>\<^verbatim>\<open>_write_csv\<close>: nothing is written for an empty list; otherwise the file is
  opened for writing (and so emptied), the header is the key list of the first record,
  and the rows follow until one raises.\<close>

definition write_csv :: "store \<Rightarrow> string \<Rightarrow> pydict list \<Rightarrow> pyerror option \<times> store" where
  "write_csv self tabla datos =
     (case datos of
        [] \<Rightarrow> (None, self)
      | first # _ \<Rightarrow>
          (let csv_path = get_csv_path self tabla;
               fieldnames = keys first
           in case writerows fieldnames datos of
                (rows, err) \<Rightarrow>
                  (err, self\<lparr>disk := (disk self)(csv_path \<mapsto> Rows (writeheader fieldnames # rows))\<rparr>)))"

text \<open>\<^verbatim>\<open>select\<close>: the body of the \<^verbatim>\<open>try\<close>, then the operation with its handler. The
  handlers of the four operations print a message and return the neutral value; the
  printing is not modelled.\<close>

definition matches :: "pydict \<Rightarrow> pydict \<Rightarrow> bool" where
  "matches filtros d = list_all (\<lambda>(k, v). get d k = v) filtros"

definition select_try :: "store \<Rightarrow> string \<Rightarrow> pydict option \<Rightarrow> pyerror + pydict list" where
  "select_try self tabla filtros =
     (if csv_mode self then
        (case read_csv self tabla of
           Inl e \<Rightarrow> Inl e
         | Inr datos \<Rightarrow>
             (case filtros of
                None \<Rightarrow> Inr datos
              | Some f \<Rightarrow> (if f \<noteq> [] then Inr (filter (matches f) datos) else Inr datos)))
      else
        (case supabase self of
           None \<Rightarrow> Inl AttributeError
         | Some c \<Rightarrow>
             exec_select c tabla
               (case filtros of None \<Rightarrow> [] | Some f \<Rightarrow> f)))"

definition select :: "store \<Rightarrow> string \<Rightarrow> pydict option \<Rightarrow> pydict list" where
  "select self tabla filtros =
     (case select_try self tabla filtros of Inl e \<Rightarrow> [] | Inr datos \<Rightarrow> datos)"

text \<open>\<^verbatim>\<open>insert\<close>. The integers of the existing ids are computed one record after the
  other; the first that fails raises. (The source also leaves the new \<open>id\<close> in the
  caller's dictionary; the model returns the flag and the store only.)\<close>

fun ids_of :: "pydict list \<Rightarrow> pyerror + int list" where
  "ids_of [] = Inr []"
| "ids_of (r # rs) =
     (case py_int (get_default r (PStr ''id'') (PInt 0)) of
        Inl e \<Rightarrow> Inl e
      | Inr i \<Rightarrow> (case ids_of rs of Inl e \<Rightarrow> Inl e | Inr is \<Rightarrow> Inr (i # is)))"

definition insert_try :: "store \<Rightarrow> string \<Rightarrow> pydict \<Rightarrow> pyerror option \<times> store" where
  "insert_try self tabla datos =
     (if csv_mode self then
        (case read_csv self tabla of
           Inl e \<Rightarrow> (Some e, self)
         | Inr registros \<Rightarrow>
             (if PStr ''id'' \<notin> set (keys datos) then
                (case ids_of registros of
                   Inl e \<Rightarrow> (Some e, self)
                 | Inr is \<Rightarrow>
                     (let max_id = max_default is 0;
                          datos' = dict_set datos (PStr ''id'') (PStr (str_int (max_id + 1)))
                      in write_csv self tabla (registros @ [datos'])))
              else write_csv self tabla (registros @ [datos])))
      else
        (case supabase self of
           None \<Rightarrow> (Some AttributeError, self)
         | Some c \<Rightarrow> (exec_insert c tabla datos, self)))"

definition insert_db :: "store \<Rightarrow> string \<Rightarrow> pydict \<Rightarrow> bool \<times> store" where
  "insert_db self tabla datos =
     (case insert_try self tabla datos of
        (None, self') \<Rightarrow> (True, self')
      | (Some e, self') \<Rightarrow> (False, self'))"

text \<open>\<^verbatim>\<open>update\<close>: the loop merges into the first record whose id is \<^verbatim>\<open>str(id_registro)\<close>
  and leaves.\<close>

fun update_first :: "string \<Rightarrow> pydict \<Rightarrow> pydict list \<Rightarrow> pydict list" where
  "update_first s datos [] = []"
| "update_first s datos (r # rs) =
     (if get r (PStr ''id'') = PStr s then dict_update r datos # rs
      else r # update_first s datos rs)"

definition update_try :: "store \<Rightarrow> string \<Rightarrow> pyval \<Rightarrow> pydict \<Rightarrow> pyerror option \<times> store" where
  "update_try self tabla id_registro datos =
     (if csv_mode self then
        (case read_csv self tabla of
           Inl e \<Rightarrow> (Some e, self)
         | Inr registros \<Rightarrow>
             write_csv self tabla (update_first (py_str id_registro) datos registros))
      else
        (case supabase self of
           None \<Rightarrow> (Some AttributeError, self)
         | Some c \<Rightarrow> (exec_update c tabla datos id_registro, self)))"

definition update :: "store \<Rightarrow> string \<Rightarrow> pyval \<Rightarrow> pydict \<Rightarrow> bool \<times> store" where
  "update self tabla id_registro datos =
     (case update_try self tabla id_registro datos of
        (None, self') \<Rightarrow> (True, self')
      | (Some e, self') \<Rightarrow> (False, self'))"

text \<open>\<^verbatim>\<open>delete\<close>.\<close>

definition delete_try :: "store \<Rightarrow> string \<Rightarrow> pyval \<Rightarrow> pyerror option \<times> store" where
  "delete_try self tabla id_registro =
     (if csv_mode self then
        (case read_csv self tabla of
           Inl e \<Rightarrow> (Some e, self)
         | Inr registros \<Rightarrow>
             write_csv self tabla
               (filter (\<lambda>r. get r (PStr ''id'') \<noteq> PStr (py_str id_registro)) registros))
      else
        (case supabase self of
           None \<Rightarrow> (Some AttributeError, self)
         | Some c \<Rightarrow> (exec_delete c tabla id_registro, self)))"

definition delete :: "store \<Rightarrow> string \<Rightarrow> pyval \<Rightarrow> bool \<times> store" where
  "delete self tabla id_registro =
     (case delete_try self tabla id_registro of
        (None, self') \<Rightarrow> (True, self')
      | (Some e, self') \<Rightarrow> (False, self'))"

text \<open>\<^verbatim>\<open>get_connection_status\<close>.\<close>

definition get_connection_status :: "store \<Rightarrow> string" where
  "get_connection_status self =
     (if csv_mode self then ''CSV Local''
      else if connected self then ''Supabase''
      else ''Desconectado'')"

section \<open>Tables\<close>

text \<open>
  The store writes a table as a header row and one row per record, each with one cell
  per field of the header. A file is a table when it is of that shape (every row after
  the first has as many cells as the first); no file is the empty table.
\<close>

definition rectangular :: "string list list \<Rightarrow> bool" where
  "rectangular rows =
     (case rows of
        [] \<Rightarrow> True
      | fieldnames # rest \<Rightarrow> list_all (\<lambda>row. length row = length fieldnames) rest)"

definition is_table :: "csvfile option \<Rightarrow> bool" where
  "is_table content =
     (case content of
        None \<Rightarrow> True
      | Some Garbled \<Rightarrow> False
      | Some (Rows rows) \<Rightarrow> rectangular rows)"

text \<open>A record whose keys and values are all strings, as read from a table.\<close>

definition is_str :: "pyval \<Rightarrow> bool" where
  "is_str v = (case v of PStr s \<Rightarrow> True | _ \<Rightarrow> False)"

definition text_record :: "pydict \<Rightarrow> bool" where
  "text_record r = (distinct (keys r) \<and> list_all (\<lambda>(k, v). is_str k \<and> is_str v) r)"

text \<open>The cells written for a record under given field names, and the record read back
  from them: every field of the header, with the value as text, empty where the record
  has no such field.\<close>

definition row_cells :: "pyval list \<Rightarrow> pydict \<Rightarrow> string list" where
  "row_cells fieldnames r = map (\<lambda>key. csv_cell (get_default r key (PStr []))) fieldnames"

definition stored_as :: "pyval list \<Rightarrow> pydict \<Rightarrow> pydict" where
  "stored_as fieldnames r =
     map (\<lambda>k. (k, PStr (csv_cell (get_default r k (PStr []))))) fieldnames"

section \<open>Sequences of operations\<close>

text \<open>The calls a client of the store can make, and the store after one of them.\<close>

datatype operation =
    Select string "pydict option"
  | Insert string pydict
  | Update string pyval pydict
  | Delete string pyval
  | Status

fun perform :: "store \<Rightarrow> operation \<Rightarrow> store" where
  "perform self (Select tabla filtros) = self"
| "perform self (Insert tabla datos) = snd (insert_db self tabla datos)"
| "perform self (Update tabla id_registro datos) = snd (update self tabla id_registro datos)"
| "perform self (Delete tabla id_registro) = snd (delete self tabla id_registro)"
| "perform self Status = self"

text \<open>The configured credentials are missing when either is unset or empty.\<close>

definition credentials_missing :: "environment \<Rightarrow> bool" where
  "credentials_missing env =
     (supabase_url env = None \<or> supabase_url env = Some [] \<or>
      supabase_key env = None \<or> supabase_key env = Some [])"

section \<open>Example stores and environments\<close>

definition local_store :: "(string \<Rightarrow> csvfile option) \<Rightarrow> store" where
  "local_store files =
     \<lparr>supabase = None, connected = False, csv_mode = True, csv_dir = ''data_backup'',
      disk = files\<rparr>"

definition failing_client :: client where
  "failing_client =
     \<lparr>exec_probe = (\<lambda>tabla. Inr []),
      exec_select = (\<lambda>tabla eqs. Inl BackendError),
      exec_insert = (\<lambda>tabla datos. Some BackendError),
      exec_update = (\<lambda>tabla datos i. Some BackendError),
      exec_delete = (\<lambda>tabla i. Some BackendError)\<rparr>"

definition remote_store :: "client \<Rightarrow> store" where
  "remote_store c =
     \<lparr>supabase = Some c, connected = True, csv_mode = False, csv_dir = ''data_backup'',
      disk = Map.empty\<rparr>"

definition one_record :: "string \<Rightarrow> csvfile option" where
  "one_record = Map.empty(''data_backup/t.csv'' \<mapsto> Rows [[''id'', ''name''], [''1'', ''Ana'']])"

definition two_cities :: "string \<Rightarrow> csvfile option" where
  "two_cities =
     Map.empty(''data_backup/t.csv'' \<mapsto> Rows [[''id'', ''city''], [''1'', ''X''], [''2'', ''Y'']])"

definition garbled_table :: "string \<Rightarrow> csvfile option" where
  "garbled_table = Map.empty(''data_backup/t.csv'' \<mapsto> Garbled)"

definition word_id :: "string \<Rightarrow> csvfile option" where
  "word_id = Map.empty(''data_backup/t.csv'' \<mapsto> Rows [[''id'', ''name''], [''abc'', ''Ana'']])"

definition env_no_dir :: environment where
  "env_no_dir =
     \<lparr>supabase_url = None, supabase_key = None,
      create_client = (\<lambda>url key. Inl BackendError),
      dir_exists = False, makedirs = Some OSError, initial_disk = Map.empty\<rparr>"

definition env_offline :: environment where
  "env_offline =
     \<lparr>supabase_url = None, supabase_key = None,
      create_client = (\<lambda>url key. Inl BackendError),
      dir_exists = False, makedirs = None, initial_disk = Map.empty\<rparr>"

definition three_people :: "string \<Rightarrow> csvfile option" where
  "three_people =
     Map.empty(''data_backup/t.csv'' \<mapsto>
       Rows [[''id'', ''name''], [''1'', ''Ana''], [''2'', ''Bob''], [''3'', ''Eva'']])"

definition ana_only :: "string \<Rightarrow> csvfile option" where
  "ana_only = Map.empty(''data_backup/t.csv'' \<mapsto> Rows [[''name'', ''id''], [''Ana'', ''1'']])"

section \<open>Evaluation of the examples\<close>

lemmas store_defs =
  select_def select_try_def insert_db_def insert_try_def update_def update_try_def
  delete_def delete_try_def read_csv_def write_csv_def get_csv_path_def path_join_def
  local_store_def

lemmas csv_defs =
  dict_reader_def row_to_dict_def dict_of_def dict_update_def dict_to_list_def
  writeheader_def csv_cell_def keys_def get_def get_default_def

lemmas text_defs =
  py_str_def str_int_def str_nat.simps py_int_def int_of_str_def strip_def is_space_def
  digit_value_def max_default_def

section \<open>Deleting the last record\<close>

text \<open>
  Claim C1. After a successful \<^verbatim>\<open>delete\<close>, \<^verbatim>\<open>select\<close> is to return the stored records
  whose id differs from \<^verbatim>\<open>str(id)\<close>, also when no record is left. On the table that
  holds the single record with id 1, \<^verbatim>\<open>delete(t, 1)\<close> returns true and leaves the store
  as it was, and \<^verbatim>\<open>select\<close> goes on returning that record: \<^verbatim>\<open>_write_csv\<close> returns before
  writing when the list is empty.
\<close>

theorem delete_last_record_remains:
  "delete (local_store one_record) ''t'' (PInt 1) = (True, local_store one_record) \<and>
   select (snd (delete (local_store one_record) ''t'' (PInt 1))) ''t'' None =
     [[(PStr ''id'', PStr ''1''), (PStr ''name'', PStr ''Ana'')]]"
  by (simp add: store_defs csv_defs text_defs one_record_def)

section \<open>Filtered reads\<close>

lemma matches_iff: "matches f = (\<lambda>d. \<forall>(k, v) \<in> set f. get d k = v)"
  by (rule ext) (simp add: matches_def list_all_iff)

text \<open>
  Claim C5. In local-file mode, with \<open>stored\<close> the records read from the table's file,
  \<^verbatim>\<open>select\<close> with a non-empty filter returns, in stored order, exactly the records in
  which every listed field equals the given value (a field the record lacks reads as
  \<open>None\<close>, as \<^verbatim>\<open>d.get(k)\<close> does); without filters it returns all of them.
\<close>

theorem select_filters_exact:
  assumes "csv_mode self" and "read_csv self tabla = Inr stored"
  shows "(f \<noteq> [] \<longrightarrow>
            select self tabla (Some f) = filter (\<lambda>d. \<forall>(k, v) \<in> set f. get d k = v) stored) \<and>
         select self tabla None = stored"
  using assms by (simp add: select_def select_try_def matches_iff)

theorem select_filters_exact_witness:
  "select (local_store two_cities) ''t'' (Some [(PStr ''city'', PStr ''X'')]) =
     [[(PStr ''id'', PStr ''1''), (PStr ''city'', PStr ''X'')]] \<and>
   select (local_store two_cities) ''t'' None =
     [[(PStr ''id'', PStr ''1''), (PStr ''city'', PStr ''X'')],
      [(PStr ''id'', PStr ''2''), (PStr ''city'', PStr ''Y'')]]"
proof -
  have m: "csv_mode (local_store two_cities)"
    by (simp add: local_store_def)
  have r: "read_csv (local_store two_cities) ''t'' =
      Inr [[(PStr ''id'', PStr ''1''), (PStr ''city'', PStr ''X'')],
           [(PStr ''id'', PStr ''2''), (PStr ''city'', PStr ''Y'')]]"
    by (simp add: store_defs csv_defs two_cities_def)
  from select_filters_exact [OF m r, of "[(PStr ''city'', PStr ''X'')]"]
  show ?thesis by (simp add: get_def get_default_def)
qed

section \<open>Failure containment\<close>

lemma select_contained: "isl (select_try self tabla filtros) \<Longrightarrow> select self tabla filtros = []"
  by (cases "select_try self tabla filtros") (simp_all add: select_def)

lemma insert_contained:
  "fst (insert_try self tabla datos) \<noteq> None \<Longrightarrow> fst (insert_db self tabla datos) = False"
  by (cases "insert_try self tabla datos") (auto simp: insert_db_def)

lemma update_contained:
  "fst (update_try self tabla i datos) \<noteq> None \<Longrightarrow> fst (update self tabla i datos) = False"
  by (cases "update_try self tabla i datos") (auto simp: update_def)

lemma delete_contained:
  "fst (delete_try self tabla i) \<noteq> None \<Longrightarrow> fst (delete self tabla i) = False"
  by (cases "delete_try self tabla i") (auto simp: delete_def)

lemma read_garbled:
  "disk self (get_csv_path self tabla) = Some Garbled \<Longrightarrow>
     read_csv self tabla = Inl UnicodeDecodeError"
  by (simp add: read_csv_def)

lemma garbled_raises:
  assumes "csv_mode self" and "disk self (get_csv_path self tabla) = Some Garbled"
  shows "isl (select_try self tabla filtros)"
    and "fst (insert_try self tabla datos) \<noteq> None"
    and "fst (update_try self tabla i datos) \<noteq> None"
    and "fst (delete_try self tabla i) \<noteq> None"
  using assms
  by (simp_all add: select_try_def insert_try_def update_try_def delete_try_def read_garbled)

lemma backend_raises:
  assumes "\<not> csv_mode self" and "supabase self = Some c"
  shows "isl (exec_select c tabla (case filtros of None \<Rightarrow> [] | Some f \<Rightarrow> f)) \<Longrightarrow>
           isl (select_try self tabla filtros)"
    and "exec_insert c tabla datos \<noteq> None \<Longrightarrow> fst (insert_try self tabla datos) \<noteq> None"
    and "exec_update c tabla datos i \<noteq> None \<Longrightarrow> fst (update_try self tabla i datos) \<noteq> None"
    and "exec_delete c tabla i \<noteq> None \<Longrightarrow> fst (delete_try self tabla i) \<noteq> None"
  using assms
  by (simp_all add: select_try_def insert_try_def update_try_def delete_try_def)

text \<open>
  Claim C7. The four operations return a plain value in every state: \<^verbatim>\<open>select\<close> a list
  and the three writers a flag. Whenever the body of the \<^verbatim>\<open>try\<close> raises, \<^verbatim>\<open>select\<close>
  returns the empty list and \<^verbatim>\<open>insert\<close>, \<^verbatim>\<open>update\<close> and \<^verbatim>\<open>delete\<close> return false; in
  particular on a malformed file in local-file mode and on an error of the backend in
  remote mode.
\<close>

theorem failure_containment:
  "(isl (select_try self tabla filtros) \<longrightarrow> select self tabla filtros = []) \<and>
   (fst (insert_try self tabla datos) \<noteq> None \<longrightarrow> fst (insert_db self tabla datos) = False) \<and>
   (fst (update_try self tabla i datos) \<noteq> None \<longrightarrow> fst (update self tabla i datos) = False) \<and>
   (fst (delete_try self tabla i) \<noteq> None \<longrightarrow> fst (delete self tabla i) = False) \<and>
   (csv_mode self \<and> disk self (get_csv_path self tabla) = Some Garbled \<longrightarrow>
      select self tabla filtros = [] \<and> fst (insert_db self tabla datos) = False \<and>
      fst (update self tabla i datos) = False \<and> fst (delete self tabla i) = False) \<and>
   (\<not> csv_mode self \<and> supabase self = Some c \<longrightarrow>
      (isl (exec_select c tabla (case filtros of None \<Rightarrow> [] | Some f \<Rightarrow> f)) \<longrightarrow>
         select self tabla filtros = []) \<and>
      (exec_insert c tabla datos \<noteq> None \<longrightarrow> fst (insert_db self tabla datos) = False) \<and>
      (exec_update c tabla datos i \<noteq> None \<longrightarrow> fst (update self tabla i datos) = False) \<and>
      (exec_delete c tabla i \<noteq> None \<longrightarrow> fst (delete self tabla i) = False))"
proof (intro conjI impI)
  show "isl (select_try self tabla filtros) \<Longrightarrow> select self tabla filtros = []"
    by (rule select_contained)
  show "fst (insert_try self tabla datos) \<noteq> None \<Longrightarrow> fst (insert_db self tabla datos) = False"
    by (rule insert_contained)
  show "fst (update_try self tabla i datos) \<noteq> None \<Longrightarrow> fst (update self tabla i datos) = False"
    by (rule update_contained)
  show "fst (delete_try self tabla i) \<noteq> None \<Longrightarrow> fst (delete self tabla i) = False"
    by (rule delete_contained)
next
  assume g: "csv_mode self \<and> disk self (get_csv_path self tabla) = Some Garbled"
  then have m: "csv_mode self" and d: "disk self (get_csv_path self tabla) = Some Garbled"
    by simp_all
  show "select self tabla filtros = []"
    by (rule select_contained [OF garbled_raises(1) [OF m d]])
  show "fst (insert_db self tabla datos) = False"
    by (rule insert_contained [OF garbled_raises(2) [OF m d]])
  show "fst (update self tabla i datos) = False"
    by (rule update_contained [OF garbled_raises(3) [OF m d]])
  show "fst (delete self tabla i) = False"
    by (rule delete_contained [OF garbled_raises(4) [OF m d]])
next
  assume r: "\<not> csv_mode self \<and> supabase self = Some c"
  then have m: "\<not> csv_mode self" and s: "supabase self = Some c"
    by simp_all
  show "isl (exec_select c tabla (case filtros of None \<Rightarrow> [] | Some f \<Rightarrow> f)) \<Longrightarrow>
      select self tabla filtros = []"
    by (rule select_contained [OF backend_raises(1) [OF m s]])
  show "exec_insert c tabla datos \<noteq> None \<Longrightarrow> fst (insert_db self tabla datos) = False"
    by (rule insert_contained [OF backend_raises(2) [OF m s]])
  show "exec_update c tabla datos i \<noteq> None \<Longrightarrow> fst (update self tabla i datos) = False"
    by (rule update_contained [OF backend_raises(3) [OF m s]])
  show "exec_delete c tabla i \<noteq> None \<Longrightarrow> fst (delete self tabla i) = False"
    by (rule delete_contained [OF backend_raises(4) [OF m s]])
qed

theorem failure_containment_witness:
  "select (local_store garbled_table) ''t'' None = [] \<and>
   fst (insert_db (local_store garbled_table) ''t'' [(PStr ''name'', PStr ''Ana'')]) = False \<and>
   fst (update (local_store garbled_table) ''t'' (PInt 1) [(PStr ''name'', PStr ''Ana'')]) = False \<and>
   fst (delete (local_store garbled_table) ''t'' (PInt 1)) = False \<and>
   select (remote_store failing_client) ''t'' None = [] \<and>
   fst (insert_db (remote_store failing_client) ''t'' [(PStr ''name'', PStr ''Ana'')]) = False \<and>
   fst (update (remote_store failing_client) ''t'' (PInt 1) [(PStr ''name'', PStr ''Ana'')]) = False \<and>
   fst (delete (remote_store failing_client) ''t'' (PInt 1)) = False"
proof -
  have g: "csv_mode (local_store garbled_table) \<and>
      disk (local_store garbled_table) (get_csv_path (local_store garbled_table) ''t'') =
        Some Garbled"
    by (simp add: local_store_def garbled_table_def get_csv_path_def path_join_def)
  have r: "\<not> csv_mode (remote_store failing_client) \<and>
      supabase (remote_store failing_client) = Some failing_client"
    by (simp add: remote_store_def)
  have x1: "isl (exec_select failing_client ''t'' (case None of None \<Rightarrow> [] | Some f \<Rightarrow> f))"
    by (simp add: failing_client_def)
  have x2: "exec_insert failing_client ''t'' [(PStr ''name'', PStr ''Ana'')] \<noteq> None"
    by (simp add: failing_client_def)
  have x3: "exec_update failing_client ''t'' [(PStr ''name'', PStr ''Ana'')] (PInt 1) \<noteq> None"
    by (simp add: failing_client_def)
  have x4: "exec_delete failing_client ''t'' (PInt 1) \<noteq> None"
    by (simp add: failing_client_def)
  note a = failure_containment [of "local_store garbled_table" "''t''" None
      "[(PStr ''name'', PStr ''Ana'')]" "PInt 1" failing_client]
  note b = failure_containment [of "remote_store failing_client" "''t''" None
      "[(PStr ''name'', PStr ''Ana'')]" "PInt 1" failing_client]
  note a' = a [THEN conjunct2, THEN conjunct2, THEN conjunct2, THEN conjunct2,
      THEN conjunct1, THEN mp, OF g]
  note b' = b [THEN conjunct2, THEN conjunct2, THEN conjunct2, THEN conjunct2,
      THEN conjunct2, THEN mp, OF r]
  note b1 = b' [THEN conjunct1, THEN mp, OF x1]
  note b2 = b' [THEN conjunct2, THEN conjunct1, THEN mp, OF x2]
  note b3 = b' [THEN conjunct2, THEN conjunct2, THEN conjunct1, THEN mp, OF x3]
  note b4 = b' [THEN conjunct2, THEN conjunct2, THEN conjunct2, THEN mp, OF x4]
  show ?thesis
    by (intro conjI a' [THEN conjunct1] a' [THEN conjunct2, THEN conjunct1]
        a' [THEN conjunct2, THEN conjunct2, THEN conjunct1]
        a' [THEN conjunct2, THEN conjunct2, THEN conjunct2] b1 b2 b3 b4)
qed

section \<open>Construction and the connection mode\<close>

lemma connect_exclusive: "connected (connect env self) \<noteq> csv_mode (connect env self)"
  unfolding connect_def connect_try_def
  by (auto split: option.splits sum.splits if_splits)

lemma connect_missing:
  "credentials_missing env \<Longrightarrow> csv_mode (connect env self) \<and> \<not> connected (connect env self)"
  unfolding connect_def connect_try_def credentials_missing_def
  by (auto split: option.splits)

lemma connect_reachable:
  assumes "supabase_url env = Some url" and "supabase_key env = Some key"
    and "url \<noteq> []" and "key \<noteq> []" and "create_client env url key = Inr c"
    and "exec_probe c TABLA_CLIENTES = Inr found"
  shows "connected (connect env self) \<and> \<not> csv_mode (connect env self)"
  using assms by (simp add: connect_def connect_try_def)

text \<open>
  Claim C8, as stated: construction completes in every environment. It does not where
  the backup directory is missing and cannot be created: \<^verbatim>\<open>os.makedirs\<close> is called
  before \<^verbatim>\<open>_connect\<close> and outside its \<^verbatim>\<open>try\<close>, so its error leaves \<^verbatim>\<open>__init__\<close>.
\<close>

theorem init_raises_without_directory: "init env_no_dir = Inl OSError"
  by (simp add: init_def env_no_dir_def)

text \<open>
  Claim C8, amended. Where the backup directory exists or can be created, construction
  completes whatever the credentials and the backend do; exactly one of the two flags
  is then set and the reported status is that of the mode; with missing credentials the
  mode is the local-file one and the status is \<open>CSV Local\<close>; with both credentials, a
  client and a probe that answers, the mode is the remote one and the status is
  \<open>Supabase\<close>.
\<close>

theorem init_succeeds_with_directory:
  assumes "dir_exists env \<or> makedirs env = None"
  shows "\<exists>self. init env = Inr self \<and> connected self \<noteq> csv_mode self \<and>
           get_connection_status self = (if csv_mode self then ''CSV Local'' else ''Supabase'') \<and>
           (credentials_missing env \<longrightarrow>
              csv_mode self \<and> get_connection_status self = ''CSV Local'') \<and>
           (\<forall>url key c found.
              supabase_url env = Some url \<and> supabase_key env = Some key \<and> url \<noteq> [] \<and>
              key \<noteq> [] \<and> create_client env url key = Inr c \<and>
              exec_probe c TABLA_CLIENTES = Inr found \<longrightarrow>
              connected self \<and> get_connection_status self = ''Supabase'')"
proof -
  let ?s0 = "\<lparr>supabase = None, connected = False, csv_mode = False,
               csv_dir = ''data_backup'', disk = initial_disk env\<rparr>"
  have i: "init env = Inr (connect env ?s0)"
    using assms by (auto simp: init_def Let_def)
  have x: "connected (connect env ?s0) \<noteq> csv_mode (connect env ?s0)"
    by (rule connect_exclusive)
  have m: "credentials_missing env \<longrightarrow> csv_mode (connect env ?s0)"
    using connect_missing [of env ?s0] by simp
  have r: "\<forall>url key c found.
      supabase_url env = Some url \<and> supabase_key env = Some key \<and> url \<noteq> [] \<and>
      key \<noteq> [] \<and> create_client env url key = Inr c \<and>
      exec_probe c TABLA_CLIENTES = Inr found \<longrightarrow>
      connected (connect env ?s0) \<and> \<not> csv_mode (connect env ?s0)"
    using connect_reachable [of env _ _ _ _ ?s0] by blast
  from i x m r show ?thesis
    by (auto simp: get_connection_status_def)
qed

theorem init_succeeds_with_directory_witness:
  "\<exists>self. init env_offline = Inr self \<and> csv_mode self \<and>
     get_connection_status self = ''CSV Local''"
proof -
  have d: "dir_exists env_offline \<or> makedirs env_offline = None"
    by (simp add: env_offline_def)
  have c: "credentials_missing env_offline"
    by (simp add: env_offline_def credentials_missing_def)
  from init_succeeds_with_directory [OF d] c show ?thesis by blast
qed

lemma write_csv_mode:
  "write_csv self tabla datos = (err, self') \<Longrightarrow>
     connected self' = connected self \<and> csv_mode self' = csv_mode self"
  by (auto simp: write_csv_def Let_def split: list.splits prod.splits)

lemma insert_try_mode:
  "insert_try self tabla datos = (err, self') \<Longrightarrow>
     connected self' = connected self \<and> csv_mode self' = csv_mode self"
  unfolding insert_try_def Let_def
  by (auto split: if_splits sum.splits option.splits dest: write_csv_mode)

lemma update_try_mode:
  "update_try self tabla i datos = (err, self') \<Longrightarrow>
     connected self' = connected self \<and> csv_mode self' = csv_mode self"
  unfolding update_try_def
  by (auto split: if_splits sum.splits option.splits dest: write_csv_mode)

lemma delete_try_mode:
  "delete_try self tabla i = (err, self') \<Longrightarrow>
     connected self' = connected self \<and> csv_mode self' = csv_mode self"
  unfolding delete_try_def
  by (auto split: if_splits sum.splits option.splits dest: write_csv_mode)

lemma perform_mode:
  "connected (perform self op) = connected self \<and> csv_mode (perform self op) = csv_mode self"
proof (cases op)
  case (Insert tabla datos)
  obtain err self' where t: "insert_try self tabla datos = (err, self')"
    by (cases "insert_try self tabla datos")
  from insert_try_mode [OF t] t Insert show ?thesis
    by (cases err) (simp_all add: insert_db_def)
next
  case (Update tabla i datos)
  obtain err self' where t: "update_try self tabla i datos = (err, self')"
    by (cases "update_try self tabla i datos")
  from update_try_mode [OF t] t Update show ?thesis
    by (cases err) (simp_all add: update_def)
next
  case (Delete tabla i)
  obtain err self' where t: "delete_try self tabla i = (err, self')"
    by (cases "delete_try self tabla i")
  from delete_try_mode [OF t] t Delete show ?thesis
    by (cases err) (simp_all add: delete_def)
qed simp_all

lemma foldl_perform_mode:
  "connected (foldl perform self ops) = connected self \<and>
   csv_mode (foldl perform self ops) = csv_mode self"
  by (induction ops arbitrary: self) (simp_all add: perform_mode)

lemma init_exclusive: "init env = Inr self \<Longrightarrow> connected self \<noteq> csv_mode self"
  unfolding init_def Let_def
  using connect_exclusive by (auto split: if_splits option.splits)

text \<open>
  Claim C9. On a constructed store exactly one of \<open>connected\<close> and \<open>csv_mode\<close> is set,
  and this stays so after any sequence of operations; the status is therefore always
  \<open>CSV Local\<close> or \<open>Supabase\<close> and never \<open>Desconectado\<close>.
\<close>

theorem mode_flags_exclusive:
  assumes "init env = Inr self"
  shows "connected (foldl perform self ops) \<noteq> csv_mode (foldl perform self ops) \<and>
         (get_connection_status (foldl perform self ops) = ''CSV Local'' \<or>
          get_connection_status (foldl perform self ops) = ''Supabase'') \<and>
         get_connection_status (foldl perform self ops) \<noteq> ''Desconectado''"
  using init_exclusive [OF assms] foldl_perform_mode [of self ops]
  by (auto simp: get_connection_status_def)

theorem mode_flags_exclusive_witness:
  "init env_offline = Inr (local_store Map.empty) \<and>
   connected (foldl perform (local_store Map.empty)
       [Insert ''t'' [(PStr ''name'', PStr ''Ana'')], Status, Delete ''t'' (PInt 1)]) \<noteq>
     csv_mode (foldl perform (local_store Map.empty)
       [Insert ''t'' [(PStr ''name'', PStr ''Ana'')], Status, Delete ''t'' (PInt 1)]) \<and>
   get_connection_status (foldl perform (local_store Map.empty)
       [Insert ''t'' [(PStr ''name'', PStr ''Ana'')], Status, Delete ''t'' (PInt 1)]) \<noteq>
     ''Desconectado''"
proof -
  have i: "init env_offline = Inr (local_store Map.empty)"
    by (simp add: init_def env_offline_def connect_def connect_try_def local_store_def)
  from mode_flags_exclusive [OF i] i show ?thesis by blast
qed

section \<open>Insertion next to an id that is not a number\<close>

lemma ids_of_raises:
  "r \<in> set registros \<Longrightarrow> py_int (get_default r (PStr ''id'') (PInt 0)) = Inl e \<Longrightarrow>
     \<exists>e'. ids_of registros = Inl e'"
  by (induction registros) (auto split: sum.splits)

text \<open>
  Claim C10. In local-file mode, when a stored record's \<open>id\<close> is a string that
  \<^verbatim>\<open>int\<close> does not accept, inserting a record without \<open>id\<close> returns false and the
  store, its files included, is as before.
\<close>

theorem insert_unparsable_id:
  assumes "csv_mode self" and "read_csv self tabla = Inr registros"
    and "r \<in> set registros" and "map_of r (PStr ''id'') = Some (PStr s)"
    and "int_of_str s = None" and "PStr ''id'' \<notin> set (keys datos)"
  shows "insert_db self tabla datos = (False, self)"
proof -
  have "py_int (get_default r (PStr ''id'') (PInt 0)) = Inl ValueError"
    using assms(4,5) by (simp add: py_int_def get_default_def)
  with assms(3) obtain e where "ids_of registros = Inl e"
    using ids_of_raises by blast
  with assms(1,2,6) show ?thesis
    by (simp add: insert_db_def insert_try_def)
qed

theorem insert_unparsable_id_witness:
  "insert_db (local_store word_id) ''t'' [(PStr ''name'', PStr ''Eva'')] =
     (False, local_store word_id)"
proof -
  have m: "csv_mode (local_store word_id)"
    by (simp add: local_store_def)
  have r: "read_csv (local_store word_id) ''t'' =
      Inr [[(PStr ''id'', PStr ''abc''), (PStr ''name'', PStr ''Ana'')]]"
    by (simp add: store_defs csv_defs word_id_def)
  have p: "int_of_str ''abc'' = None"
    by (simp add: text_defs)
  have i: "[(PStr ''id'', PStr ''abc''), (PStr ''name'', PStr ''Ana'')] \<in>
      set [[(PStr ''id'', PStr ''abc''), (PStr ''name'', PStr ''Ana'')]]"
    by simp
  have g: "map_of [(PStr ''id'', PStr ''abc''), (PStr ''name'', PStr ''Ana'')] (PStr ''id'') =
      Some (PStr ''abc'')"
    by simp
  have k: "PStr ''id'' \<notin> set (keys [(PStr ''name'', PStr ''Eva'')])"
    by (simp add: keys_def)
  from insert_unparsable_id [OF m r i g p k] show ?thesis .
qed

section \<open>Dictionaries in insertion order\<close>

lemma keys_dict_set:
  "keys (dict_set d k v) = (if k \<in> set (keys d) then keys d else keys d @ [k])"
  by (induction d) (force simp: keys_def)+

lemma map_of_dict_set: "map_of (dict_set d k v) = (map_of d)(k \<mapsto> v)"
  by (induction d) (auto simp: fun_eq_iff)

lemma set_dict_set: "set (dict_set d k v) \<subseteq> insert (k, v) (set d)"
  by (induction d) (auto split: if_splits)

lemma dict_set_fresh: "k \<notin> set (keys d) \<Longrightarrow> dict_set d k v = d @ [(k, v)]"
  by (induction d) (auto simp: keys_def)

lemma dict_update_Nil [simp]: "dict_update d [] = d"
  by (simp add: dict_update_def)

lemma dict_update_Cons [simp]: "dict_update d ((k, v) # e) = dict_update (dict_set d k v) e"
  by (simp add: dict_update_def)

lemma distinct_keys_dict_set: "distinct (keys d) \<Longrightarrow> distinct (keys (dict_set d k v))"
  by (simp add: keys_dict_set)

lemma distinct_keys_dict_update: "distinct (keys d) \<Longrightarrow> distinct (keys (dict_update d e))"
proof (induction e arbitrary: d)
  case Nil
  then show ?case by simp
next
  case (Cons p e)
  obtain k v where p: "p = (k, v)" by (cases p)
  from Cons.IH [OF distinct_keys_dict_set [OF Cons.prems, of k v]] show ?case
    by (simp add: p)
qed

lemma keys_Cons [simp]: "keys ((k, v) # d) = k # keys d"
  by (simp add: keys_def)

lemma keys_Nil [simp]: "keys [] = []"
  by (simp add: keys_def)

lemma set_keys_dict_update: "set (keys (dict_update d e)) = set (keys d) \<union> set (keys e)"
proof (induction e arbitrary: d)
  case Nil
  show ?case by simp
next
  case (Cons p e)
  obtain k v where p: "p = (k, v)" by (cases p)
  show ?case by (auto simp: p Cons keys_dict_set)
qed

lemma keys_dict_update_cong:
  "keys d = keys d' \<Longrightarrow> keys e = keys e' \<Longrightarrow> keys (dict_update d e) = keys (dict_update d' e')"
proof (induction e arbitrary: d d' e')
  case Nil
  then show ?case by (simp add: keys_def)
next
  case (Cons p e)
  then obtain p' e'' where e': "e' = p' # e''" and p: "fst p' = fst p" and k: "keys e = keys e''"
    by (cases e') (auto simp: keys_def)
  obtain k v where pk: "p = (k, v)" by (cases p)
  obtain v' where pk': "p' = (k, v')" using p pk by (cases p') auto
  have "keys (dict_set d k v) = keys (dict_set d' k v')"
    using Cons.prems(1) by (simp add: keys_dict_set)
  from Cons.IH [OF this k] show ?case by (simp add: pk pk' e')
qed

lemma keys_dict_update_subset:
  "set (keys e) \<subseteq> set (keys d) \<Longrightarrow> keys (dict_update d e) = keys d"
proof (induction e arbitrary: d)
  case Nil
  show ?case by simp
next
  case (Cons p e)
  obtain k v where p: "p = (k, v)" by (cases p)
  have k: "keys (dict_set d k v) = keys d"
    using Cons.prems by (simp add: p keys_dict_set)
  have "set (keys e) \<subseteq> set (keys (dict_set d k v))"
    using Cons.prems by (simp add: p k)
  from Cons.IH [OF this] show ?case by (simp add: p k)
qed

lemma set_dict_update: "set (dict_update d e) \<subseteq> set d \<union> set e"
proof (induction e arbitrary: d)
  case Nil
  show ?case by simp
next
  case (Cons p e)
  obtain k v where p: "p = (k, v)" by (cases p)
  from Cons [of "dict_set d k v"] set_dict_set [of d k v] show ?case
    by (auto simp: p)
qed

lemma map_of_dict_update: "map_of (dict_update d e) = map_of d ++ map_of (rev e)"
proof (induction e arbitrary: d)
  case Nil
  show ?case by simp
next
  case (Cons p e)
  obtain k v where p: "p = (k, v)" by (cases p)
  show ?case
    by (simp add: p Cons map_of_dict_set fun_eq_iff map_add_def split: option.splits)
qed

lemma dict_update_fresh: "distinct (keys (d @ e)) \<Longrightarrow> dict_update d e = d @ e"
proof (induction e arbitrary: d)
  case Nil
  show ?case by simp
next
  case (Cons p e)
  obtain k v where p: "p = (k, v)" by (cases p)
  have f: "k \<notin> set (keys d)" using Cons.prems by (auto simp: keys_def p)
  have "distinct (keys ((d @ [(k, v)]) @ e))" using Cons.prems by (simp add: keys_def p)
  from Cons.IH [OF this] f show ?case by (simp add: p dict_set_fresh)
qed

lemma dict_of_distinct: "distinct (map fst kvs) \<Longrightarrow> dict_of kvs = kvs"
  using dict_update_fresh [of "[]" kvs] by (simp add: dict_of_def keys_def)

lemma get_dict_update_other:
  "k \<notin> set (keys e) \<Longrightarrow> get_default (dict_update d e) k x = get_default d k x"
  by (simp add: get_default_def map_of_dict_update map_add_def keys_def
      map_of_eq_None_iff [THEN iffD2] split: option.splits)

section \<open>Writing and reading back\<close>

subsection \<open>Writing\<close>

lemma dict_to_list_ok:
  "set (keys r) \<subseteq> set K \<Longrightarrow> dict_to_list K r = Inr (row_cells K r)"
  by (auto simp: dict_to_list_def row_cells_def list_ex_iff)

lemma dict_to_list_Inr:
  "dict_to_list K r = Inr row \<Longrightarrow> set (keys r) \<subseteq> set K \<and> row = row_cells K r"
  by (auto simp: dict_to_list_def row_cells_def list_ex_iff split: if_splits)

lemma writerows_ok:
  "\<forall>r \<in> set recs. set (keys r) \<subseteq> set K \<Longrightarrow> writerows K recs = (map (row_cells K) recs, None)"
  by (induction recs) (simp_all add: dict_to_list_ok)

lemma writerows_None:
  "writerows K recs = (rows, None) \<Longrightarrow>
     rows = map (row_cells K) recs \<and> (\<forall>r \<in> set recs. set (keys r) \<subseteq> set K)"
proof (induction recs arbitrary: rows)
  case Nil
  then show ?case by simp
next
  case (Cons r recs)
  from Cons.prems obtain row where d: "dict_to_list K r = Inr row"
    by (cases "dict_to_list K r") simp_all
  obtain rows' err where w: "writerows K recs = (rows', err)"
    by (cases "writerows K recs")
  from Cons.prems d w have e: "err = None" and rs: "rows = row # rows'"
    by simp_all
  from Cons.IH [OF w [unfolded e]] dict_to_list_Inr [OF d] rs show ?case
    by simp
qed

subsection \<open>Reading\<close>

lemma row_to_dict_full:
  "length row = length fieldnames \<Longrightarrow>
     row_to_dict fieldnames row = dict_of (zip (map PStr fieldnames) (map PStr row))"
  by (simp add: row_to_dict_def Let_def)

lemma length_row_cells [simp]: "length (row_cells K r) = length K"
  by (simp add: row_cells_def)

lemma row_cells_Nil_iff [simp]: "row_cells K r = [] \<longleftrightarrow> K = []"
  by (simp add: row_cells_def)

lemma dict_reader_written:
  "K \<noteq> [] \<Longrightarrow>
     dict_reader (writeheader K # map (row_cells K) recs) =
       map (\<lambda>r. dict_of (zip (map PStr (writeheader K)) (map PStr (row_cells K r)))) recs"
  by (simp add: dict_reader_def filter_map o_def row_to_dict_full writeheader_def)

lemma is_str_cell: "is_str k \<Longrightarrow> PStr (csv_cell k) = k"
  by (cases k) (simp_all add: is_str_def csv_cell_def py_str_def)

lemma header_strings: "list_all is_str K \<Longrightarrow> map PStr (writeheader K) = K"
  by (induction K) (simp_all add: writeheader_def is_str_cell)

lemma read_back_record:
  assumes "distinct K" and "list_all is_str K"
  shows "dict_of (zip (map PStr (writeheader K)) (map PStr (row_cells K r))) = stored_as K r"
proof -
  have "zip K (map PStr (row_cells K r)) = stored_as K r"
    by (simp add: row_cells_def stored_as_def zip_map2 zip_same_conv_map o_def)
  moreover have "map fst (stored_as K r) = K"
    by (simp add: stored_as_def o_def)
  ultimately show ?thesis
    using assms dict_of_distinct [of "stored_as K r"] by (simp add: header_strings)
qed

lemma stored_as_text_record:
  assumes "text_record r"
  shows "stored_as (keys r) r = r"
proof -
  have "\<And>p. p \<in> set r \<Longrightarrow>
      (fst p, PStr (csv_cell (get_default r (fst p) (PStr [])))) = p"
  proof -
    fix p assume p: "p \<in> set r"
    obtain k v where kv: "p = (k, v)" by (cases p)
    from assms p kv have "map_of r k = Some v"
      by (simp add: text_record_def keys_def)
    moreover from assms p kv have "is_str v"
      by (auto simp: text_record_def list_all_iff)
    ultimately show "(fst p, PStr (csv_cell (get_default r (fst p) (PStr [])))) = p"
      by (simp add: kv get_default_def is_str_cell)
  qed
  then have "map (\<lambda>p. (fst p, PStr (csv_cell (get_default r (fst p) (PStr []))))) r = r"
    by (simp add: map_idI)
  then show ?thesis by (simp add: stored_as_def keys_def o_def)
qed

subsection \<open>Writing a table and reading it back\<close>

lemma get_csv_path_disk [simp]: "get_csv_path (self\<lparr>disk := f\<rparr>) tabla = get_csv_path self tabla"
  by (simp add: get_csv_path_def)

lemma write_csv_ok:
  assumes "recs = first # others" and "\<forall>r \<in> set recs. set (keys r) \<subseteq> set (keys first)"
  shows "write_csv self tabla recs =
    (None, self\<lparr>disk := (disk self)(get_csv_path self tabla \<mapsto>
       Rows (writeheader (keys first) # map (row_cells (keys first)) recs))\<rparr>)"
proof -
  have "writerows (keys first) (first # others) =
      (map (row_cells (keys first)) (first # others), None)"
    using writerows_ok [OF assms(2)] by (simp only: assms(1))
  then show ?thesis
    by (simp add: write_csv_def assms(1) Let_def del: writerows.simps)
qed

lemma read_written:
  assumes "keys first \<noteq> []" and "distinct (keys first)" and "list_all is_str (keys first)"
    and "disk self' (get_csv_path self' tabla) =
      Some (Rows (writeheader (keys first) # map (row_cells (keys first)) recs))"
  shows "read_csv self' tabla = Inr (map (stored_as (keys first)) recs)"
  using assms by (simp add: read_csv_def dict_reader_written read_back_record)

subsection \<open>The records of a rectangular file\<close>

lemma record_of_row:
  assumes "length row = length h"
  shows "text_record (dict_of (zip (map PStr h) (map PStr row)))"
    and "keys (dict_of (zip (map PStr h) (map PStr row))) =
         keys (dict_of (zip (map PStr h) (map PStr h)))"
    and "h \<noteq> [] \<Longrightarrow> keys (dict_of (zip (map PStr h) (map PStr row))) \<noteq> []"
proof -
  let ?kvs = "zip (map PStr h) (map PStr row)"
  have k: "keys ?kvs = map PStr h"
    using assms by (simp add: keys_def)
  have d: "distinct (keys (dict_of ?kvs))"
    using distinct_keys_dict_update [of "[]" ?kvs] by (simp add: dict_of_def)
  have "\<And>p. p \<in> set (dict_of ?kvs) \<Longrightarrow> is_str (fst p) \<and> is_str (snd p)"
  proof -
    fix p assume "p \<in> set (dict_of ?kvs)"
    with set_dict_update [of "[]" ?kvs] have "p \<in> set ?kvs"
      by (auto simp: dict_of_def)
    then have "(fst p, snd p) \<in> set ?kvs" by simp
    then have "fst p \<in> set (map PStr h)" and "snd p \<in> set (map PStr row)"
      by (rule set_zip_leftD, rule set_zip_rightD)
    then show "is_str (fst p) \<and> is_str (snd p)"
      by (auto simp: is_str_def)
  qed
  with d show "text_record (dict_of ?kvs)"
    by (auto simp: text_record_def list_all_iff)
  have "keys (zip (map PStr h) (map PStr h)) = map PStr h"
    by (simp add: keys_def)
  with k show "keys (dict_of ?kvs) = keys (dict_of (zip (map PStr h) (map PStr h)))"
    unfolding dict_of_def by (intro keys_dict_update_cong) simp_all
  show "h \<noteq> [] \<Longrightarrow> keys (dict_of ?kvs) \<noteq> []"
  proof -
    assume "h \<noteq> []"
    then have "set (keys ?kvs) \<noteq> {}" using k by simp
    then have "set (keys (dict_of ?kvs)) \<noteq> {}"
      by (simp add: dict_of_def set_keys_dict_update)
    then show ?thesis by auto
  qed
qed

lemma read_table:
  assumes "is_table (disk self (get_csv_path self tabla))"
  shows "\<exists>recs K. read_csv self tabla = Inr recs \<and>
           (\<forall>r \<in> set recs. text_record r \<and> keys r = K \<and> K \<noteq> [])"
proof (cases "disk self (get_csv_path self tabla)")
  case None
  then show ?thesis by (simp add: read_csv_def)
next
  case (Some content)
  show ?thesis
  proof (cases content)
    case Garbled
    with Some assms show ?thesis by (simp add: is_table_def)
  next
    case (Rows rows)
    show ?thesis
    proof (cases rows)
      case Nil
      with Some Rows show ?thesis by (simp add: read_csv_def dict_reader_def)
    next
      case (Cons h rest)
      let ?K = "keys (dict_of (zip (map PStr h) (map PStr h)))"
      let ?recs = "map (row_to_dict h) (filter (\<lambda>row. row \<noteq> []) rest)"
      have rd: "read_csv self tabla = Inr ?recs"
        using Some Rows Cons by (simp add: read_csv_def dict_reader_def)
      have len: "\<And>row. row \<in> set rest \<Longrightarrow> length row = length h"
        using assms Some Rows Cons by (simp add: is_table_def rectangular_def list_all_iff)
      have "\<And>r. r \<in> set ?recs \<Longrightarrow> text_record r \<and> keys r = ?K \<and> ?K \<noteq> []"
      proof -
        fix r assume "r \<in> set ?recs"
        then obtain row where row: "row \<in> set rest" "row \<noteq> []" and r: "r = row_to_dict h row"
          by auto
        from len [OF row(1)] row(2) have h: "h \<noteq> []" by auto
        from record_of_row [OF len [OF row(1)]] h
          record_of_row(3) [of h h] row_to_dict_full [OF len [OF row(1)]] r
        show "text_record r \<and> keys r = ?K \<and> ?K \<noteq> []"
          by simp
      qed
      with rd show ?thesis by blast
    qed
  qed
qed

section \<open>Deleting twice\<close>

lemma delete_in_csv_mode:
  "csv_mode self \<Longrightarrow> read_csv self tabla = Inr recs \<Longrightarrow>
     delete_try self tabla i =
       write_csv self tabla (filter (\<lambda>r. get r (PStr ''id'') \<noteq> PStr (py_str i)) recs)"
  by (simp add: delete_try_def)

lemma delete_of_try:
  "delete_try self tabla i = (None, self') \<Longrightarrow> delete self tabla i = (True, self')"
  by (simp add: delete_def)

text \<open>
  Claim C6. In local-file mode, on every table, \<^verbatim>\<open>delete\<close> returns true, and a second
  \<^verbatim>\<open>delete\<close> of the same id returns true again and leaves the store exactly as the
  first left it.
\<close>

theorem delete_idempotent:
  assumes "csv_mode self" and "is_table (disk self (get_csv_path self tabla))"
  shows "fst (delete self tabla i) = True \<and>
         delete (snd (delete self tabla i)) tabla i = (True, snd (delete self tabla i))"
proof -
  from read_table [OF assms(2)] obtain recs K where
    rd: "read_csv self tabla = Inr recs" and
    tr: "\<forall>r \<in> set recs. text_record r \<and> keys r = K \<and> K \<noteq> []"
    by blast
  let ?P = "\<lambda>r. get r (PStr ''id'') \<noteq> PStr (py_str i)"
  let ?kept = "filter ?P recs"
  note dt = delete_in_csv_mode [OF assms(1) rd, of i]
  show ?thesis
  proof (cases ?kept)
    case Nil
    with dt have "delete_try self tabla i = (None, self)"
      by (simp add: write_csv_def)
    then have "delete self tabla i = (True, self)"
      by (rule delete_of_try)
    then show ?thesis by simp
  next
    case (Cons first others)
    have fk: "first \<in> set ?kept" using Cons by simp
    have kf: "keys first = K" and kn: "K \<noteq> []" and tf: "text_record first"
      using tr fk by auto
    have all: "\<forall>r \<in> set ?kept. set (keys r) \<subseteq> set (keys first)"
      using tr kf by auto
    let ?file = "Rows (writeheader (keys first) # map (row_cells (keys first)) ?kept)"
    let ?self' = "self\<lparr>disk := (disk self)(get_csv_path self tabla \<mapsto> ?file)\<rparr>"
    have w: "write_csv self tabla ?kept = (None, ?self')"
      by (rule write_csv_ok [OF Cons all])
    with dt have d1: "delete self tabla i = (True, ?self')"
      by (simp add: delete_of_try)
    have dk: "distinct (keys first)" and sk: "list_all is_str (keys first)"
      using tf by (auto simp: text_record_def keys_def list_all_iff)
    have "read_csv ?self' tabla = Inr (map (stored_as (keys first)) ?kept)"
      by (rule read_written [OF _ dk sk]) (simp_all add: kf kn)
    moreover have "map (stored_as (keys first)) ?kept = ?kept"
    proof (rule map_idI)
      fix r assume "r \<in> set ?kept"
      with tr kf have "text_record r" and "keys r = keys first" by auto
      with stored_as_text_record [of r] show "stored_as (keys first) r = r" by simp
    qed
    ultimately have rd': "read_csv ?self' tabla = Inr ?kept" by simp
    have m': "csv_mode ?self'" using assms(1) by simp
    have "delete_try ?self' tabla i = write_csv ?self' tabla (filter ?P ?kept)"
      by (rule delete_in_csv_mode [OF m' rd'])
    also have "filter ?P ?kept = ?kept" by simp
    also have "write_csv ?self' tabla ?kept =
        (None, ?self'\<lparr>disk := (disk ?self')(get_csv_path ?self' tabla \<mapsto> ?file)\<rparr>)"
      by (rule write_csv_ok [OF Cons all])
    also have "?self'\<lparr>disk := (disk ?self')(get_csv_path ?self' tabla \<mapsto> ?file)\<rparr> = ?self'"
      by simp
    finally have "delete ?self' tabla i = (True, ?self')"
      by (rule delete_of_try)
    with d1 show ?thesis by simp
  qed
qed

theorem delete_idempotent_witness:
  "fst (delete (local_store two_cities) ''t'' (PInt 1)) = True \<and>
   delete (snd (delete (local_store two_cities) ''t'' (PInt 1))) ''t'' (PInt 1) =
     (True, snd (delete (local_store two_cities) ''t'' (PInt 1)))"
proof -
  have m: "csv_mode (local_store two_cities)"
    by (simp add: local_store_def)
  have t: "is_table (disk (local_store two_cities) (get_csv_path (local_store two_cities) ''t''))"
    by (simp add: local_store_def two_cities_def get_csv_path_def path_join_def is_table_def
        rectangular_def)
  from delete_idempotent [OF m t] show ?thesis .
qed

section \<open>Updating\<close>

lemma map_of_rev_distinct:
  assumes "distinct (map fst xs)"
  shows "map_of (rev xs) = map_of xs"
proof (rule ext)
  fix k
  have d: "distinct (map fst (rev xs))"
    using assms by (simp add: rev_map [symmetric])
  show "map_of (rev xs) k = map_of xs k"
  proof (cases "map_of xs k")
    case None
    then have "k \<notin> fst ` set xs" by (simp add: map_of_eq_None_iff)
    then have "map_of (rev xs) k = None" by (simp add: map_of_eq_None_iff)
    with None show ?thesis by simp
  next
    case (Some v)
    then have "(k, v) \<in> set (rev xs)" by (auto dest: map_of_SomeD)
    with d have "map_of (rev xs) k = Some v" by (rule map_of_is_SomeI)
    with Some show ?thesis by simp
  qed
qed

lemma get_dict_update_listed:
  assumes "distinct (keys e)" and "k \<in> set (keys e)"
  shows "get_default (dict_update d e) k x = get e k"
proof -
  from assms(2) obtain v where v: "map_of e k = Some v"
    by (cases "map_of e k") (auto simp: map_of_eq_None_iff keys_def)
  have "map_of (rev e) k = Some v"
    using assms(1) v by (simp add: map_of_rev_distinct keys_def)
  then show ?thesis
    by (simp add: get_default_def get_def map_of_dict_update map_add_def v)
qed

lemma keys_stored_as [simp]: "keys (stored_as K r) = K"
  by (simp add: stored_as_def keys_def o_def)

lemma get_stored_as:
  "get (stored_as K r) k =
     (if k \<in> set K then PStr (csv_cell (get_default r k (PStr []))) else PNone)"
  by (simp add: get_def get_default_def stored_as_def map_of_map_restrict restrict_map_def)

lemma get_absent: "k \<notin> set (keys r) \<Longrightarrow> get r k = PNone"
  by (simp add: get_def get_default_def keys_def map_of_eq_None_iff [THEN iffD2])

lemma text_record_value:
  assumes "text_record r" and "k \<in> set (keys r)"
  shows "PStr (csv_cell (get_default r k x)) = get r k"
proof -
  from assms(2) obtain v where v: "map_of r k = Some v"
    by (cases "map_of r k") (auto simp: map_of_eq_None_iff keys_def)
  then have "(k, v) \<in> set r" by (rule map_of_SomeD)
  with assms(1) have "is_str v" by (auto simp: text_record_def list_all_iff)
  then show ?thesis by (simp add: get_def get_default_def v is_str_cell)
qed

lemma text_record_keys:
  "text_record r \<Longrightarrow> distinct (keys r) \<and> list_all is_str (keys r)"
  by (auto simp: text_record_def keys_def list_all_iff)

subsection \<open>The loop of update\<close>

lemma length_update_first [simp]: "length (update_first s datos recs) = length recs"
  by (induction recs) simp_all

lemma update_first_no_match:
  "\<forall>r \<in> set recs. get r (PStr ''id'') \<noteq> PStr s \<Longrightarrow> update_first s datos recs = recs"
  by (induction recs) simp_all

lemma update_first_match:
  "\<forall>x \<in> set before. get x (PStr ''id'') \<noteq> PStr s \<Longrightarrow> get r (PStr ''id'') = PStr s \<Longrightarrow>
     update_first s datos (before @ r # after) = before @ dict_update r datos # after"
  by (induction before) simp_all

lemma update_first_members:
  "r' \<in> set (update_first s datos recs) \<Longrightarrow>
     r' \<in> set recs \<or> (\<exists>r \<in> set recs. r' = dict_update r datos)"
  by (induction recs) (auto split: if_splits)

lemma update_in_csv_mode:
  "csv_mode self \<Longrightarrow> read_csv self tabla = Inr recs \<Longrightarrow>
     update_try self tabla i datos = write_csv self tabla (update_first (py_str i) datos recs)"
  by (simp add: update_try_def)

lemma update_of_try:
  "update_try self tabla i datos = (None, self') \<Longrightarrow> update self tabla i datos = (True, self')"
  by (simp add: update_def)

lemma select_all_in_csv_mode:
  "csv_mode self \<Longrightarrow> read_csv self tabla = Inr recs \<Longrightarrow> select self tabla None = recs"
  by (simp add: select_def select_try_def)

text \<open>After an update whose fields are all fields of the table, the table holds the
  merged list, each record as the file stores it.\<close>

lemma update_within_fields:
  assumes m: "csv_mode self" and rd: "read_csv self tabla = Inr recs"
    and tr: "\<forall>r \<in> set recs. text_record r \<and> keys r = K \<and> K \<noteq> []"
    and sub: "recs \<noteq> [] \<longrightarrow> set (keys datos) \<subseteq> set K"
  shows "\<exists>self'. update self tabla i datos = (True, self') \<and>
           select self' tabla None = map (stored_as K) (update_first (py_str i) datos recs)"
proof -
  let ?recs' = "update_first (py_str i) datos recs"
  note ut = update_in_csv_mode [OF m rd, of i datos]
  show ?thesis
  proof (cases ?recs')
    case Nil
    then have e: "recs = []" using length_update_first [of "py_str i" datos recs] by simp
    from ut Nil have "update_try self tabla i datos = (None, self)"
      by (simp add: write_csv_def)
    then have "update self tabla i datos = (True, self)" by (rule update_of_try)
    moreover have "select self tabla None = []"
      using select_all_in_csv_mode [OF m rd] e by simp
    ultimately show ?thesis using e by simp
  next
    case (Cons first others)
    then have ne: "recs \<noteq> []" using length_update_first [of "py_str i" datos recs] by auto
    have kk: "\<And>r'. r' \<in> set ?recs' \<Longrightarrow> keys r' = K"
    proof -
      fix r' assume "r' \<in> set ?recs'"
      from update_first_members [OF this] show "keys r' = K"
      proof
        assume "r' \<in> set recs"
        with tr show ?thesis by simp
      next
        assume "\<exists>r \<in> set recs. r' = dict_update r datos"
        then obtain r where r: "r \<in> set recs" and r': "r' = dict_update r datos" by blast
        from r tr have "keys r = K" by simp
        with sub ne keys_dict_update_subset [of datos r] r' show ?thesis by simp
      qed
    qed
    have kf: "keys first = K" using kk [of first] Cons by simp
    obtain r0 where r0: "r0 \<in> set recs" using ne by (cases recs) auto
    with tr have t0: "text_record r0" and k0: "keys r0 = K" and kn: "K \<noteq> []" by auto
    have dk: "distinct (keys first)" and sk: "list_all is_str (keys first)"
      using text_record_keys [OF t0] k0 kf by simp_all
    have all: "\<forall>r \<in> set ?recs'. set (keys r) \<subseteq> set (keys first)"
      using kk kf by simp
    let ?file = "Rows (writeheader (keys first) # map (row_cells (keys first)) ?recs')"
    let ?self' = "self\<lparr>disk := (disk self)(get_csv_path self tabla \<mapsto> ?file)\<rparr>"
    have "write_csv self tabla ?recs' = (None, ?self')"
      by (rule write_csv_ok [OF Cons all])
    with ut have u: "update self tabla i datos = (True, ?self')"
      by (simp add: update_of_try)
    have "read_csv ?self' tabla = Inr (map (stored_as (keys first)) ?recs')"
      by (rule read_written [OF _ dk sk]) (simp_all add: kf kn)
    moreover have "csv_mode ?self'" using m by simp
    ultimately have "select ?self' tabla None = map (stored_as K) ?recs'"
      using kf by (simp add: select_all_in_csv_mode)
    with u show ?thesis by blast
  qed
qed

lemma stored_as_merged:
  assumes "text_record r" and "keys r = K" and "distinct (keys datos)"
    and "set (keys datos) \<subseteq> set K"
  shows "get (stored_as K (dict_update r datos)) k =
     (if k \<in> set (keys datos) then PStr (csv_cell (get datos k)) else get r k)"
proof (cases "k \<in> set (keys datos)")
  case True
  with assms(4) have "k \<in> set K" by auto
  with True assms(3) show ?thesis
    by (simp add: get_stored_as get_dict_update_listed)
next
  case False
  show ?thesis
  proof (cases "k \<in> set K")
    case True
    with assms(1,2) have "PStr (csv_cell (get_default r k (PStr []))) = get r k"
      by (simp add: text_record_value)
    with True False show ?thesis
      by (simp add: get_stored_as get_dict_update_other)
  next
    case False
    with assms(2) have "get r k = PNone" by (simp add: get_absent)
    with False \<open>k \<notin> set (keys datos)\<close> show ?thesis
      by (simp add: get_stored_as)
  qed
qed

text \<open>
  Claim C4, as stated: \<^verbatim>\<open>update\<close> merges the given fields into the first record with the
  id and leaves the other records as they are. On a table of three records, updating
  the second with a field the table does not have returns false, and afterwards the
  table holds the first record only: the header is the key list of the first record,
  \<^verbatim>\<open>DictWriter\<close> raises at the merged record, and the file was emptied when it was opened.
\<close>

theorem update_new_field_truncates:
  "select (local_store three_people) ''t'' None =
     [[(PStr ''id'', PStr ''1''), (PStr ''name'', PStr ''Ana'')],
      [(PStr ''id'', PStr ''2''), (PStr ''name'', PStr ''Bob'')],
      [(PStr ''id'', PStr ''3''), (PStr ''name'', PStr ''Eva'')]] \<and>
   fst (update (local_store three_people) ''t'' (PInt 2) [(PStr ''city'', PStr ''Z'')]) = False \<and>
   select (snd (update (local_store three_people) ''t'' (PInt 2) [(PStr ''city'', PStr ''Z'')]))
       ''t'' None =
     [[(PStr ''id'', PStr ''1''), (PStr ''name'', PStr ''Ana'')]]"
  by (simp add: store_defs csv_defs text_defs three_people_def)

text \<open>
  Claim C4, amended. In local-file mode, on a table, when every field of the payload is
  a field of the table: \<^verbatim>\<open>update\<close> returns true; when no record has the id the records
  are as before; otherwise the first record with the id keeps its place and its fields,
  each listed field now holding the given value as text and each other field its old
  value, and the records before and after it are as before.
\<close>

theorem update_merges_first_match:
  assumes "csv_mode self" and "is_table (disk self (get_csv_path self tabla))"
    and "distinct (keys datos)"
    and "\<forall>r \<in> set (select self tabla None). set (keys datos) \<subseteq> set (keys r)"
  shows "\<exists>self'. update self tabla i datos = (True, self') \<and>
     ((\<forall>r \<in> set (select self tabla None). get r (PStr ''id'') \<noteq> PStr (py_str i)) \<longrightarrow>
        select self' tabla None = select self tabla None) \<and>
     (\<forall>before r after.
        select self tabla None = before @ r # after \<and>
        (\<forall>x \<in> set before. get x (PStr ''id'') \<noteq> PStr (py_str i)) \<and>
        get r (PStr ''id'') = PStr (py_str i) \<longrightarrow>
        (\<exists>r'. select self' tabla None = before @ r' # after \<and> keys r' = keys r \<and>
           (\<forall>k. get r' k =
              (if k \<in> set (keys datos) then PStr (csv_cell (get datos k)) else get r k))))"
proof -
  from read_table [OF assms(2)] obtain recs K where
    rd: "read_csv self tabla = Inr recs" and
    tr: "\<forall>r \<in> set recs. text_record r \<and> keys r = K \<and> K \<noteq> []"
    by blast
  have sel: "select self tabla None = recs"
    by (rule select_all_in_csv_mode [OF assms(1) rd])
  have sub: "recs \<noteq> [] \<longrightarrow> set (keys datos) \<subseteq> set K"
  proof
    assume "recs \<noteq> []"
    then obtain r0 where "r0 \<in> set recs" by (cases recs) auto
    with assms(4) tr sel show "set (keys datos) \<subseteq> set K" by auto
  qed
  from update_within_fields [OF assms(1) rd tr sub, of i] obtain self' where
    u: "update self tabla i datos = (True, self')" and
    s': "select self' tabla None = map (stored_as K) (update_first (py_str i) datos recs)"
    by blast
  have same: "\<And>xs. set xs \<subseteq> set recs \<Longrightarrow> map (stored_as K) xs = xs"
  proof -
    fix xs assume xs: "set xs \<subseteq> set recs"
    show "map (stored_as K) xs = xs"
    proof (rule map_idI)
      fix r assume "r \<in> set xs"
      with xs tr have "text_record r" and "keys r = K" by auto
      with stored_as_text_record [of r] show "stored_as K r = r" by simp
    qed
  qed
  have nomatch: "(\<forall>r \<in> set recs. get r (PStr ''id'') \<noteq> PStr (py_str i)) \<longrightarrow>
      select self' tabla None = recs"
    using s' same [of recs] by (simp add: update_first_no_match)
  have match: "\<forall>before r after.
      recs = before @ r # after \<and>
      (\<forall>x \<in> set before. get x (PStr ''id'') \<noteq> PStr (py_str i)) \<and>
      get r (PStr ''id'') = PStr (py_str i) \<longrightarrow>
      (\<exists>r'. select self' tabla None = before @ r' # after \<and> keys r' = keys r \<and>
         (\<forall>k. get r' k =
            (if k \<in> set (keys datos) then PStr (csv_cell (get datos k)) else get r k)))"
  proof (intro allI impI)
    fix before r after
    assume a: "recs = before @ r # after \<and>
      (\<forall>x \<in> set before. get x (PStr ''id'') \<noteq> PStr (py_str i)) \<and>
      get r (PStr ''id'') = PStr (py_str i)"
    then have dec: "recs = before @ r # after"
      and nb: "\<forall>x \<in> set before. get x (PStr ''id'') \<noteq> PStr (py_str i)"
      and mr: "get r (PStr ''id'') = PStr (py_str i)"
      by simp_all
    have rr: "r \<in> set recs" using dec by simp
    with tr have t: "text_record r" and kr: "keys r = K" by auto
    have sK: "set (keys datos) \<subseteq> set K" using sub rr by auto
    let ?r' = "stored_as K (dict_update r datos)"
    have "update_first (py_str i) datos recs = before @ dict_update r datos # after"
      unfolding dec by (rule update_first_match [OF nb mr])
    then have "select self' tabla None =
        map (stored_as K) before @ ?r' # map (stored_as K) after"
      using s' by simp
    moreover have "map (stored_as K) before = before" and "map (stored_as K) after = after"
      using same [of before] same [of after] dec by auto
    ultimately have 1: "select self' tabla None = before @ ?r' # after" by simp
    have 2: "keys ?r' = keys r" using kr by simp
    have 3: "\<forall>k. get ?r' k =
        (if k \<in> set (keys datos) then PStr (csv_cell (get datos k)) else get r k)"
      using stored_as_merged [OF t kr assms(3) sK] by blast
    from 1 2 3 show "\<exists>r'. select self' tabla None = before @ r' # after \<and> keys r' = keys r \<and>
         (\<forall>k. get r' k =
            (if k \<in> set (keys datos) then PStr (csv_cell (get datos k)) else get r k))"
      by blast
  qed
  from u nomatch match show ?thesis
    unfolding sel by blast
qed

theorem update_merges_first_match_witness:
  "fst (update (local_store two_cities) ''t'' (PInt 1) [(PStr ''city'', PStr ''Z'')]) = True \<and>
   select (snd (update (local_store two_cities) ''t'' (PInt 1) [(PStr ''city'', PStr ''Z'')]))
       ''t'' None =
     [[(PStr ''id'', PStr ''1''), (PStr ''city'', PStr ''Z'')],
      [(PStr ''id'', PStr ''2''), (PStr ''city'', PStr ''Y'')]]"
proof -
  have m: "csv_mode (local_store two_cities)"
    by (simp add: local_store_def)
  have t: "is_table (disk (local_store two_cities) (get_csv_path (local_store two_cities) ''t''))"
    by (simp add: local_store_def two_cities_def get_csv_path_def path_join_def is_table_def
        rectangular_def)
  have d: "distinct (keys [(PStr ''city'', PStr ''Z'')])"
    by simp
  have s: "select (local_store two_cities) ''t'' None =
      [[(PStr ''id'', PStr ''1''), (PStr ''city'', PStr ''X'')],
       [(PStr ''id'', PStr ''2''), (PStr ''city'', PStr ''Y'')]]"
    by (simp add: store_defs csv_defs two_cities_def)
  have f: "\<forall>r \<in> set (select (local_store two_cities) ''t'' None).
      set (keys [(PStr ''city'', PStr ''Z'')]) \<subseteq> set (keys r)"
    unfolding s by simp
  from update_merges_first_match [OF m t d f, of "PInt 1"] obtain self' where
    "update (local_store two_cities) ''t'' (PInt 1) [(PStr ''city'', PStr ''Z'')] = (True, self')"
    by (elim exE conjE)
  then have 1: "fst (update (local_store two_cities) ''t'' (PInt 1) [(PStr ''city'', PStr ''Z'')]) =
      True"
    by simp
  have 2: "select (snd (update (local_store two_cities) ''t'' (PInt 1) [(PStr ''city'', PStr ''Z'')]))
       ''t'' None =
     [[(PStr ''id'', PStr ''1''), (PStr ''city'', PStr ''Z'')],
      [(PStr ''id'', PStr ''2''), (PStr ''city'', PStr ''Y'')]]"
    by (simp add: store_defs csv_defs text_defs two_cities_def)
  from 1 2 show ?thesis by (rule conjI)
qed

section \<open>Inserting\<close>

lemma str_int_1: "str_int 1 = ''1''"
  by (simp add: str_int_def str_nat.simps)

lemma str_int_2: "str_int 2 = ''2''"
  by (simp add: str_int_def str_nat.simps)

lemma py_int_1: "py_int (PStr ''1'') = Inr 1"
  by (simp add: py_int_def int_of_str_def strip_def is_space_def digit_value_def)

lemma get_default_snoc:
  "k \<notin> set (keys r) \<Longrightarrow> get_default (r @ [(k, v)]) k x = v"
  by (simp add: get_default_def keys_def map_add_def map_of_eq_None_iff [THEN iffD2])

lemma insert_new_in_csv_mode:
  assumes "csv_mode self" and "read_csv self tabla = Inr recs"
    and "PStr ''id'' \<notin> set (keys datos)" and "ids_of recs = Inr ids"
  shows "insert_try self tabla datos =
     write_csv self tabla
       (recs @ [datos @ [(PStr ''id'', PStr (str_int (max_default ids 0 + 1)))]])"
  using assms by (simp add: insert_try_def Let_def dict_set_fresh)

lemma insert_of_try:
  "insert_try self tabla datos = (None, self') \<Longrightarrow> insert_db self tabla datos = (True, self')"
  by (simp add: insert_db_def)

lemma text_record_stored_as:
  assumes "distinct K" and "list_all is_str K"
  shows "text_record (stored_as K r)"
  using assms
  by (auto simp: text_record_def stored_as_def keys_def o_def list_all_iff is_str_def)

text \<open>
  Claim C3, as stated: after a first record without id, a second record without id is
  given the id 2 and \<^verbatim>\<open>select\<close> returns both. A second record with a field the first
  did not have is refused instead: \<^verbatim>\<open>insert\<close> returns false and the table holds the first
  record only.
\<close>

theorem second_insert_rejected:
  "insert_db (local_store Map.empty) ''t'' [(PStr ''name'', PStr ''Ana'')] =
     (True, local_store ana_only) \<and>
   fst (insert_db (local_store ana_only) ''t'' [(PStr ''city'', PStr ''X'')]) = False \<and>
   select (snd (insert_db (local_store ana_only) ''t'' [(PStr ''city'', PStr ''X'')])) ''t'' None =
     [[(PStr ''name'', PStr ''Ana''), (PStr ''id'', PStr ''1'')]]"
  by (simp add: store_defs csv_defs text_defs ana_only_def)

text \<open>
  Claim C3, amended. In local-file mode, on an empty table, inserting a record without
  \<open>id\<close> whose field names are strings gives it the id \<open>1\<close>; inserting then a second
  record without \<open>id\<close> whose fields are among those of the first gives it the id \<open>2\<close>;
  \<^verbatim>\<open>select\<close> then returns both in insertion order, each with the fields of the first
  record and \<open>id\<close>, the values as text and empty where the record had no such field.
\<close>

theorem insert_assigns_ids:
  assumes "csv_mode self" and "read_csv self tabla = Inr []"
    and "distinct (keys r1)" and "list_all is_str (keys r1)"
    and "PStr ''id'' \<notin> set (keys r1)" and "PStr ''id'' \<notin> set (keys r2)"
    and "set (keys r2) \<subseteq> set (keys r1)"
  shows "\<exists>s1 s2.
     insert_db self tabla r1 = (True, s1) \<and>
     select s1 tabla None =
       [stored_as (keys r1 @ [PStr ''id'']) (r1 @ [(PStr ''id'', PStr ''1'')])] \<and>
     insert_db s1 tabla r2 = (True, s2) \<and>
     select s2 tabla None =
       [stored_as (keys r1 @ [PStr ''id'']) (r1 @ [(PStr ''id'', PStr ''1'')]),
        stored_as (keys r1 @ [PStr ''id'']) (r2 @ [(PStr ''id'', PStr ''2'')])] \<and>
     map (\<lambda>r. get r (PStr ''id'')) (select s2 tabla None) = [PStr ''1'', PStr ''2'']"
proof -
  let ?K = "keys r1 @ [PStr ''id'']"
  let ?d1 = "r1 @ [(PStr ''id'', PStr ''1'')]"
  let ?d2 = "r2 @ [(PStr ''id'', PStr ''2'')]"
  let ?a1 = "stored_as ?K ?d1"
  have k1: "keys ?d1 = ?K" by (simp add: keys_def)
  have kn: "?K \<noteq> []" by simp
  have dk: "distinct ?K" using assms(3,5) by simp
  have sk: "list_all is_str ?K" using assms(4) by (simp add: is_str_def)
  have kn1: "keys ?d1 \<noteq> []" unfolding k1 by (rule kn)
  have dk1: "distinct (keys ?d1)" unfolding k1 by (rule dk)
  have sk1: "list_all is_str (keys ?d1)" unfolding k1 by (rule sk)
  \<comment> \<open>the first insertion\<close>
  have "insert_try self tabla r1 =
      write_csv self tabla ([] @ [r1 @ [(PStr ''id'', PStr (str_int (max_default [] 0 + 1)))]])"
    by (rule insert_new_in_csv_mode [OF assms(1,2,5)]) simp
  then have t1: "insert_try self tabla r1 = write_csv self tabla [?d1]"
    by (simp add: max_default_def str_int_1)
  let ?f1 = "Rows (writeheader (keys ?d1) # map (row_cells (keys ?d1)) [?d1])"
  let ?s1 = "self\<lparr>disk := (disk self)(get_csv_path self tabla \<mapsto> ?f1)\<rparr>"
  have "write_csv self tabla [?d1] = (None, ?s1)"
    by (rule write_csv_ok [of _ ?d1 "[]"]) simp_all
  with t1 have i1: "insert_db self tabla r1 = (True, ?s1)"
    by (simp add: insert_of_try)
  have rd1: "read_csv ?s1 tabla = Inr (map (stored_as (keys ?d1)) [?d1])"
    by (rule read_written [OF kn1 dk1 sk1]) simp
  then have rd1': "read_csv ?s1 tabla = Inr [?a1]"
    by (simp add: k1)
  have m1: "csv_mode ?s1" using assms(1) by simp
  have sel1: "select ?s1 tabla None = [?a1]"
    by (rule select_all_in_csv_mode [OF m1 rd1'])
  \<comment> \<open>the second insertion\<close>
  have id1: "get_default ?a1 (PStr ''id'') (PInt 0) = PStr ''1''"
  proof -
    have "get ?a1 (PStr ''id'') = PStr (csv_cell (get_default ?d1 (PStr ''id'') (PStr [])))"
      by (simp add: get_stored_as)
    also have "get_default ?d1 (PStr ''id'') (PStr []) = PStr ''1''"
      by (rule get_default_snoc [OF assms(5)])
    finally have "get ?a1 (PStr ''id'') = PStr ''1''"
      by (simp add: csv_cell_def py_str_def)
    moreover have "map_of ?a1 (PStr ''id'') \<noteq> None"
      by (simp add: stored_as_def map_of_map_restrict restrict_map_def)
    ultimately show ?thesis
      by (auto simp: get_def get_default_def split: option.splits)
  qed
  have ids: "ids_of [?a1] = Inr [1]"
    by (simp add: id1 py_int_1)
  have "insert_try ?s1 tabla r2 =
      write_csv ?s1 tabla ([?a1] @ [r2 @ [(PStr ''id'', PStr (str_int (max_default [1] 0 + 1)))]])"
    by (rule insert_new_in_csv_mode [OF m1 rd1' assms(6) ids])
  then have t2: "insert_try ?s1 tabla r2 = write_csv ?s1 tabla (?a1 # [?d2])"
    by (simp add: max_default_def str_int_2)
  have ka: "keys ?a1 = ?K" by simp
  have kn2: "keys ?a1 \<noteq> []" unfolding ka by (rule kn)
  have dk2: "distinct (keys ?a1)" unfolding ka by (rule dk)
  have sk2: "list_all is_str (keys ?a1)" unfolding ka by (rule sk)
  have all2: "\<forall>r \<in> set (?a1 # [?d2]). set (keys r) \<subseteq> set (keys ?a1)"
  proof -
    have "keys ?d2 = keys r2 @ [PStr ''id'']" by (simp add: keys_def)
    with assms(7) show ?thesis by auto
  qed
  let ?f2 = "Rows (writeheader (keys ?a1) # map (row_cells (keys ?a1)) (?a1 # [?d2]))"
  let ?s2 = "?s1\<lparr>disk := (disk ?s1)(get_csv_path ?s1 tabla \<mapsto> ?f2)\<rparr>"
  have "write_csv ?s1 tabla (?a1 # [?d2]) = (None, ?s2)"
    by (rule write_csv_ok [OF refl all2])
  with t2 have i2: "insert_db ?s1 tabla r2 = (True, ?s2)"
    by (simp add: insert_of_try)
  have rd2: "read_csv ?s2 tabla = Inr (map (stored_as (keys ?a1)) (?a1 # [?d2]))"
    by (rule read_written [OF kn2 dk2 sk2]) simp
  have "text_record ?a1" by (rule text_record_stored_as [OF dk sk])
  with stored_as_text_record [of ?a1] have "stored_as ?K ?a1 = ?a1" by simp
  with rd2 have rd2': "read_csv ?s2 tabla = Inr [?a1, stored_as ?K ?d2]"
    by simp
  have m2: "csv_mode ?s2" using assms(1) by simp
  have sel2: "select ?s2 tabla None = [?a1, stored_as ?K ?d2]"
    by (rule select_all_in_csv_mode [OF m2 rd2'])
  have g1: "get ?a1 (PStr ''id'') = PStr ''1''"
    using get_default_snoc [OF assms(5), of "PStr ''1''" "PStr []"]
    by (simp add: get_stored_as csv_cell_def py_str_def)
  have g2: "get (stored_as ?K ?d2) (PStr ''id'') = PStr ''2''"
    using get_default_snoc [OF assms(6), of "PStr ''2''" "PStr []"]
    by (simp add: get_stored_as csv_cell_def py_str_def)
  from i1 sel1 i2 sel2 g1 g2 show ?thesis
    by (intro exI [of _ ?s1] exI [of _ ?s2]) simp
qed

theorem insert_assigns_ids_witness:
  "\<exists>s1 s2.
     insert_db (local_store Map.empty) ''t'' [(PStr ''name'', PStr ''Ana'')] = (True, s1) \<and>
     insert_db s1 ''t'' [(PStr ''name'', PStr ''Bob'')] = (True, s2) \<and>
     select s2 ''t'' None =
       [[(PStr ''name'', PStr ''Ana''), (PStr ''id'', PStr ''1'')],
        [(PStr ''name'', PStr ''Bob''), (PStr ''id'', PStr ''2'')]]"
proof -
  have m: "csv_mode (local_store Map.empty)"
    by (simp add: local_store_def)
  have r: "read_csv (local_store Map.empty) ''t'' = Inr []"
    by (simp add: read_csv_def local_store_def)
  have d: "distinct (keys [(PStr ''name'', PStr ''Ana'')])"
    and s: "list_all is_str (keys [(PStr ''name'', PStr ''Ana'')])"
    and i1: "PStr ''id'' \<notin> set (keys [(PStr ''name'', PStr ''Ana'')])"
    and i2: "PStr ''id'' \<notin> set (keys [(PStr ''name'', PStr ''Bob'')])"
    and sub: "set (keys [(PStr ''name'', PStr ''Bob'')]) \<subseteq> set (keys [(PStr ''name'', PStr ''Ana'')])"
    by (simp_all add: is_str_def)
  from insert_assigns_ids [OF m r d s i1 i2 sub] obtain s1 s2 where
    a: "insert_db (local_store Map.empty) ''t'' [(PStr ''name'', PStr ''Ana'')] = (True, s1)" and
    b: "insert_db s1 ''t'' [(PStr ''name'', PStr ''Bob'')] = (True, s2)" and
    c: "select s2 ''t'' None =
       [stored_as (keys [(PStr ''name'', PStr ''Ana'')] @ [PStr ''id''])
          ([(PStr ''name'', PStr ''Ana'')] @ [(PStr ''id'', PStr ''1'')]),
        stored_as (keys [(PStr ''name'', PStr ''Ana'')] @ [PStr ''id''])
          ([(PStr ''name'', PStr ''Bob'')] @ [(PStr ''id'', PStr ''2'')])]"
    by (elim exE conjE)
  have "select s2 ''t'' None =
       [[(PStr ''name'', PStr ''Ana''), (PStr ''id'', PStr ''1'')],
        [(PStr ''name'', PStr ''Bob''), (PStr ''id'', PStr ''2'')]]"
    unfolding c by (simp add: stored_as_def get_default_def csv_cell_def py_str_def)
  with a b show ?thesis by (intro exI conjI)
qed

section \<open>The id column under update\<close>

lemma str_nat_digits: "set (str_nat n) \<subseteq> set ''0123456789''"
proof (induction n rule: str_nat.induct)
  case (1 n)
  show ?case
  proof (cases "n < 10")
    case True
    then have "''0123456789'' ! n \<in> set ''0123456789''"
      by (intro nth_mem) simp
    with True show ?thesis by (subst str_nat.simps) simp
  next
    case False
    have "n mod 10 < length ''0123456789''" by simp
    then have "''0123456789'' ! (n mod 10) \<in> set ''0123456789''"
      by (rule nth_mem)
    with False 1 show ?thesis by (subst str_nat.simps) simp
  qed
qed

lemma str_nat_no_letter: "CHR ''i'' \<notin> set (str_nat n)"
proof
  assume "CHR ''i'' \<in> set (str_nat n)"
  with str_nat_digits [of n] have "CHR ''i'' \<in> set ''0123456789''" by (rule subsetD)
  then show False by simp
qed

lemma str_int_not_id: "str_int n \<noteq> ''id''"
proof (cases "n < 0")
  case True
  then show ?thesis by (simp add: str_int_def)
next
  case False
  show ?thesis
  proof
    assume "str_int n = ''id''"
    with False have "str_nat (nat n) = ''id''" by (simp add: str_int_def)
    then have "CHR ''i'' \<in> set (str_nat (nat n))" by simp
    with str_nat_no_letter show False by blast
  qed
qed

lemma cell_is_id: "csv_cell k = ''id'' \<longleftrightarrow> k = PStr ''id''"
  by (cases k) (simp_all add: csv_cell_def py_str_def str_int_not_id str_list_def)

lemma map_of_keyed:
  assumes "\<And>k. f k = y \<longleftrightarrow> k = k0"
  shows "map_of (map (\<lambda>k. (f k, g k)) xs) y = (if k0 \<in> set xs then Some (g k0) else None)"
proof (induction xs)
  case Nil
  show ?case by simp
next
  case (Cons a xs)
  have "y = f a \<longleftrightarrow> a = k0" using assms [of a] by auto
  with Cons show ?case by auto
qed

lemma get_read_back_id:
  "get (dict_of (zip (map PStr (writeheader K)) (map PStr (row_cells K r)))) (PStr ''id'') =
     (if PStr ''id'' \<in> set K then PStr (csv_cell (get_default r (PStr ''id'') (PStr [])))
      else PNone)"
proof -
  let ?f = "\<lambda>k. PStr (csv_cell k)"
  let ?g = "\<lambda>k. PStr (csv_cell (get_default r k (PStr [])))"
  have z: "zip (map PStr (writeheader K)) (map PStr (row_cells K r)) = map (\<lambda>k. (?f k, ?g k)) K"
    by (simp add: writeheader_def row_cells_def zip_map_map zip_same_conv_map)
  have "map_of (dict_of (map (\<lambda>k. (?f k, ?g k)) K)) = map_of (map (\<lambda>k. (?f k, ?g k)) (rev K))"
    by (simp add: dict_of_def map_of_dict_update rev_map)
  moreover have "map_of (map (\<lambda>k. (?f k, ?g k)) (rev K)) (PStr ''id'') =
      (if PStr ''id'' \<in> set (rev K) then Some (?g (PStr ''id'')) else None)"
    by (rule map_of_keyed) (simp add: cell_is_id)
  ultimately show ?thesis
    by (simp add: z get_def get_default_def)
qed

lemma update_first_ids:
  "PStr ''id'' \<notin> set (keys datos) \<Longrightarrow>
     map (\<lambda>r. get r (PStr ''id'')) (update_first s datos recs) =
     map (\<lambda>r. get r (PStr ''id'')) recs"
  by (induction recs) (simp_all add: get_def get_dict_update_other)

lemma update_True:
  "update self tabla i datos = (True, self') \<Longrightarrow> update_try self tabla i datos = (None, self')"
  by (auto simp: update_def split: prod.splits option.splits)

text \<open>
  Claim C2, as stated: no \<^verbatim>\<open>update\<close> changes the id of a stored record, whatever the
  payload. A payload that itself carries an \<open>id\<close> is merged like any other field:
  updating record 1 with \<open>id = 2\<close> returns true and the record's id is then 2.
\<close>

theorem update_reassigns_id:
  "map (\<lambda>r. get r (PStr ''id'')) (select (local_store one_record) ''t'' None) = [PStr ''1''] \<and>
   fst (update (local_store one_record) ''t'' (PInt 1) [(PStr ''id'', PStr ''2'')]) = True \<and>
   map (\<lambda>r. get r (PStr ''id''))
     (select (snd (update (local_store one_record) ''t'' (PInt 1) [(PStr ''id'', PStr ''2'')]))
        ''t'' None) = [PStr ''2'']"
  by (simp add: store_defs csv_defs text_defs one_record_def)

text \<open>
  Claim C2, amended. In local-file mode, on a table, an \<^verbatim>\<open>update\<close> that returns true and
  whose payload has no \<open>id\<close> field leaves the id of every record as it was: the ids
  that \<^verbatim>\<open>select\<close> returns afterwards are, record by record, those it returned before.
\<close>

theorem update_keeps_ids:
  assumes "csv_mode self" and "is_table (disk self (get_csv_path self tabla))"
    and "PStr ''id'' \<notin> set (keys datos)"
    and "update self tabla i datos = (True, self')"
  shows "map (\<lambda>r. get r (PStr ''id'')) (select self' tabla None) =
         map (\<lambda>r. get r (PStr ''id'')) (select self tabla None)"
proof -
  let ?id = "PStr ''id''"
  from read_table [OF assms(2)] obtain recs K where
    rd: "read_csv self tabla = Inr recs" and
    tr: "\<forall>r \<in> set recs. text_record r \<and> keys r = K \<and> K \<noteq> []"
    by blast
  have sel: "select self tabla None = recs"
    by (rule select_all_in_csv_mode [OF assms(1) rd])
  let ?recs' = "update_first (py_str i) datos recs"
  have w: "write_csv self tabla ?recs' = (None, self')"
    using update_in_csv_mode [OF assms(1) rd, of i datos] update_True [OF assms(4)] by simp
  have ids: "map (\<lambda>r. get r ?id) ?recs' = map (\<lambda>r. get r ?id) recs"
    by (rule update_first_ids [OF assms(3)])
  show ?thesis
  proof (cases ?recs')
    case Nil
    with w have "self' = self" by (simp add: write_csv_def)
    then show ?thesis by simp
  next
    case (Cons first others)
    let ?K' = "keys first"
    obtain rows err where wr: "writerows ?K' ?recs' = (rows, err)"
      by (cases "writerows ?K' ?recs'")
    from w have "(err, self\<lparr>disk := (disk self)(get_csv_path self tabla \<mapsto>
        Rows (writeheader ?K' # rows))\<rparr>) = (None, self')"
      unfolding write_csv_def Cons [symmetric] using Cons wr
      by (simp add: Let_def del: writerows.simps)
    then have e: "err = None"
      and s': "self' = self\<lparr>disk := (disk self)(get_csv_path self tabla \<mapsto>
        Rows (writeheader ?K' # rows))\<rparr>"
      by simp_all
    from writerows_None [OF wr [unfolded e]] have
      rows: "rows = map (row_cells ?K') ?recs'" by simp
    \<comment> \<open>every record of the merged list has an id exactly when the table has the column\<close>
    have P: "\<And>r'. r' \<in> set ?recs' \<Longrightarrow>
        (?id \<in> set (keys r') \<longleftrightarrow> ?id \<in> set K) \<and> keys r' \<noteq> [] \<and>
        (?id \<in> set K \<longrightarrow> PStr (csv_cell (get_default r' ?id (PStr []))) = get r' ?id)"
    proof -
      fix r' assume "r' \<in> set ?recs'"
      from update_first_members [OF this]
      show "(?id \<in> set (keys r') \<longleftrightarrow> ?id \<in> set K) \<and> keys r' \<noteq> [] \<and>
        (?id \<in> set K \<longrightarrow> PStr (csv_cell (get_default r' ?id (PStr []))) = get r' ?id)"
      proof
        assume "r' \<in> set recs"
        with tr have "text_record r'" and "keys r' = K" and "K \<noteq> []" by auto
        then show ?thesis by (simp add: text_record_value)
      next
        assume "\<exists>r \<in> set recs. r' = dict_update r datos"
        then obtain r where r: "r \<in> set recs" and r': "r' = dict_update r datos" by blast
        from r tr have t: "text_record r" and k: "keys r = K" and n: "K \<noteq> []" by auto
        have 1: "?id \<in> set (keys r') \<longleftrightarrow> ?id \<in> set K"
          using assms(3) k by (simp add: r' set_keys_dict_update)
        have "set (keys r') \<noteq> {}"
          using k n by (simp add: r' set_keys_dict_update)
        then have 2: "keys r' \<noteq> []" by auto
        have 3: "?id \<in> set K \<longrightarrow> PStr (csv_cell (get_default r' ?id (PStr []))) = get r' ?id"
          using t k assms(3) text_record_value [of r ?id "PStr []"]
          by (simp add: r' get_def get_dict_update_other)
        from 1 2 3 show ?thesis by blast
      qed
    qed
    have fm: "first \<in> set ?recs'" using Cons by simp
    have kn: "?K' \<noteq> []" using P [OF fm] by simp
    have kid: "?id \<in> set ?K' \<longleftrightarrow> ?id \<in> set K" using P [OF fm] by simp
    let ?rb = "\<lambda>r. dict_of (zip (map PStr (writeheader ?K')) (map PStr (row_cells ?K' r)))"
    have "read_csv self' tabla = Inr (map ?rb ?recs')"
      by (simp add: s' rows read_csv_def dict_reader_written [OF kn])
    moreover have "csv_mode self'" using assms(1) by (simp add: s')
    ultimately have sel': "select self' tabla None = map ?rb ?recs'"
      by (rule select_all_in_csv_mode [rotated])
    have "\<And>r'. r' \<in> set ?recs' \<Longrightarrow> get (?rb r') ?id = get r' ?id"
    proof -
      fix r' assume m: "r' \<in> set ?recs'"
      show "get (?rb r') ?id = get r' ?id"
      proof (cases "?id \<in> set K")
        case True
        with kid P [OF m] show ?thesis by (simp add: get_read_back_id)
      next
        case False
        with P [OF m] have "?id \<notin> set (keys r')" by simp
        then have "get r' ?id = PNone" by (rule get_absent)
        with False kid show ?thesis by (simp add: get_read_back_id)
      qed
    qed
    then have "map (\<lambda>r. get r ?id) (map ?rb ?recs') = map (\<lambda>r. get r ?id) ?recs'"
      by (simp add: o_def)
    with sel' ids sel show ?thesis by simp
  qed
qed

theorem update_keeps_ids_witness:
  "map (\<lambda>r. get r (PStr ''id''))
     (select (snd (update (local_store two_cities) ''t'' (PInt 1) [(PStr ''city'', PStr ''Z'')]))
        ''t'' None) =
   map (\<lambda>r. get r (PStr ''id'')) (select (local_store two_cities) ''t'' None)"
proof -
  have m: "csv_mode (local_store two_cities)"
    by (simp add: local_store_def)
  have t: "is_table (disk (local_store two_cities) (get_csv_path (local_store two_cities) ''t''))"
    by (simp add: local_store_def two_cities_def get_csv_path_def path_join_def is_table_def
        rectangular_def)
  have k: "PStr ''id'' \<notin> set (keys [(PStr ''city'', PStr ''Z'')])"
    by simp
  have "fst (update (local_store two_cities) ''t'' (PInt 1) [(PStr ''city'', PStr ''Z'')]) = True"
    by (simp add: store_defs csv_defs text_defs two_cities_def)
  then have u: "update (local_store two_cities) ''t'' (PInt 1) [(PStr ''city'', PStr ''Z'')] =
      (True, snd (update (local_store two_cities) ''t'' (PInt 1) [(PStr ''city'', PStr ''Z'')]))"
    by (simp add: prod_eq_iff)
  from update_keeps_ids [OF m t k u] show ?thesis .
qed

section \<open>Deleting while a record remains\<close>

text \<open>
  Property X1. In local-file mode, on a table, when at least one stored record has an id
  other than \<^verbatim>\<open>str(id)\<close>, \<^verbatim>\<open>delete\<close> returns true and \<^verbatim>\<open>select\<close> then returns exactly
  the stored records whose id differs from \<^verbatim>\<open>str(id)\<close>, in their order.
\<close>

theorem delete_removes_matching:
  assumes "csv_mode self" and "is_table (disk self (get_csv_path self tabla))"
    and "filter (\<lambda>r. get r (PStr ''id'') \<noteq> PStr (py_str i)) (select self tabla None) \<noteq> []"
  shows "fst (delete self tabla i) = True \<and>
         select (snd (delete self tabla i)) tabla None =
           filter (\<lambda>r. get r (PStr ''id'') \<noteq> PStr (py_str i)) (select self tabla None)"
proof -
  from read_table [OF assms(2)] obtain recs K where
    rd: "read_csv self tabla = Inr recs" and
    tr: "\<forall>r \<in> set recs. text_record r \<and> keys r = K \<and> K \<noteq> []"
    by blast
  have sel: "select self tabla None = recs"
    by (rule select_all_in_csv_mode [OF assms(1) rd])
  let ?P = "\<lambda>r. get r (PStr ''id'') \<noteq> PStr (py_str i)"
  let ?kept = "filter ?P recs"
  from assms(3) sel obtain first others where Cons: "?kept = first # others"
    by (cases ?kept) auto
  have fk: "first \<in> set ?kept" using Cons by simp
  have kf: "keys first = K" and kn: "K \<noteq> []" and tf: "text_record first"
    using tr fk by auto
  have all: "\<forall>r \<in> set ?kept. set (keys r) \<subseteq> set (keys first)"
    using tr kf by auto
  let ?file = "Rows (writeheader (keys first) # map (row_cells (keys first)) ?kept)"
  let ?self' = "self\<lparr>disk := (disk self)(get_csv_path self tabla \<mapsto> ?file)\<rparr>"
  have "write_csv self tabla ?kept = (None, ?self')"
    by (rule write_csv_ok [OF Cons all])
  with delete_in_csv_mode [OF assms(1) rd, of i] have d: "delete self tabla i = (True, ?self')"
    by (simp add: delete_of_try)
  have dk: "distinct (keys first)" and sk: "list_all is_str (keys first)"
    using text_record_keys [OF tf] by simp_all
  have "read_csv ?self' tabla = Inr (map (stored_as (keys first)) ?kept)"
    by (rule read_written [OF _ dk sk]) (simp_all add: kf kn)
  moreover have "map (stored_as (keys first)) ?kept = ?kept"
  proof (rule map_idI)
    fix r assume "r \<in> set ?kept"
    with tr kf have "text_record r" and "keys r = keys first" by auto
    with stored_as_text_record [of r] show "stored_as (keys first) r = r" by simp
  qed
  ultimately have "read_csv ?self' tabla = Inr ?kept" by simp
  moreover have "csv_mode ?self'" using assms(1) by simp
  ultimately have "select ?self' tabla None = ?kept"
    by (rule select_all_in_csv_mode [rotated])
  with d sel show ?thesis by simp
qed

theorem delete_removes_matching_witness:
  "fst (delete (local_store two_cities) ''t'' (PInt 1)) = True \<and>
   select (snd (delete (local_store two_cities) ''t'' (PInt 1))) ''t'' None =
     [[(PStr ''id'', PStr ''2''), (PStr ''city'', PStr ''Y'')]]"
proof -
  have m: "csv_mode (local_store two_cities)"
    by (simp add: local_store_def)
  have t: "is_table (disk (local_store two_cities) (get_csv_path (local_store two_cities) ''t''))"
    by (simp add: local_store_def two_cities_def get_csv_path_def path_join_def is_table_def
        rectangular_def)
  have s: "select (local_store two_cities) ''t'' None =
      [[(PStr ''id'', PStr ''1''), (PStr ''city'', PStr ''X'')],
       [(PStr ''id'', PStr ''2''), (PStr ''city'', PStr ''Y'')]]"
    by (simp add: store_defs csv_defs two_cities_def)
  have f: "filter (\<lambda>r. get r (PStr ''id'') \<noteq> PStr (py_str (PInt 1)))
      (select (local_store two_cities) ''t'' None) =
      [[(PStr ''id'', PStr ''2''), (PStr ''city'', PStr ''Y'')]]"
    unfolding s by (simp add: get_def get_default_def text_defs)
  then have n: "filter (\<lambda>r. get r (PStr ''id'') \<noteq> PStr (py_str (PInt 1)))
      (select (local_store two_cities) ''t'' None) \<noteq> []"
    by simp
  from delete_removes_matching [OF m t n] show ?thesis
    unfolding f .
qed

end
